theory Spec2Isabelle
  imports Main
begin

section \<open>The Go standard library functions the converter calls\<close>

text \<open>
  A Go \<^verbatim>\<open>string\<close> is a sequence of bytes; it is modelled by \<^typ>\<open>string\<close>, a list of
  8-bit characters. Memory is unbounded in the model.
\<close>

definition asciiSpace :: "char list" where
  "asciiSpace = [CHR 0x09, CHR 0x0A, CHR 0x0B, CHR 0x0C, CHR 0x0D, CHR 0x20]"

definition spaceEncodings :: "string list" where
  "spaceEncodings =
     map (\<lambda>c. [c]) asciiSpace @
     [[CHR 0xC2, CHR 0x85], [CHR 0xC2, CHR 0xA0], [CHR 0xE1, CHR 0x9A, CHR 0x80]] @
     map (\<lambda>c. [CHR 0xE2, CHR 0x80, c])
       [CHR 0x80, CHR 0x81, CHR 0x82, CHR 0x83, CHR 0x84, CHR 0x85, CHR 0x86, CHR 0x87,
        CHR 0x88, CHR 0x89, CHR 0x8A, CHR 0xA8, CHR 0xA9, CHR 0xAF] @
     [[CHR 0xE2, CHR 0x81, CHR 0x9F], [CHR 0xE3, CHR 0x80, CHR 0x80]]"

definition spaceWidth :: "string list \<Rightarrow> string \<Rightarrow> nat" where
  "spaceWidth encs s =
     (case find (\<lambda>p. take (length p) s = p) encs of None \<Rightarrow> 0 | Some p \<Rightarrow> length p)"

fun trimLeading :: "string list \<Rightarrow> string \<Rightarrow> string" where
  "trimLeading encs [] = []"
| "trimLeading encs (c # s) =
     (case spaceWidth encs (c # s) of
        0 \<Rightarrow> c # s
      | Suc n \<Rightarrow> trimLeading encs (drop n s))"

definition TrimSpace :: "string \<Rightarrow> string" where
  "TrimSpace s = rev (trimLeading (map rev spaceEncodings) (rev (trimLeading spaceEncodings s)))"

definition TrimRight :: "string \<Rightarrow> string \<Rightarrow> string" where
  "TrimRight s cutset = rev (dropWhile (\<lambda>c. c \<in> set cutset) (rev s))"

definition HasSuffix :: "string \<Rightarrow> string \<Rightarrow> bool" where
  "HasSuffix s suffix =
     (length suffix \<le> length s \<and> drop (length s - length suffix) s = suffix)"

fun Contains :: "string \<Rightarrow> string \<Rightarrow> bool" where
  "Contains [] substr = (substr = [])"
| "Contains (c # s) substr = (take (length substr) (c # s) = substr \<or> Contains s substr)"

fun ReplaceAll :: "string \<Rightarrow> string \<Rightarrow> string \<Rightarrow> string" where
  "ReplaceAll [] old new = []"
| "ReplaceAll (c # s) old new =
     (if old \<noteq> [] \<and> take (length old) (c # s) = old
      then new @ ReplaceAll (drop (length old - 1) s) old new
      else c # ReplaceAll s old new)"

fun Join :: "string list \<Rightarrow> string \<Rightarrow> string" where
  "Join [] sep = []"
| "Join [x] sep = x"
| "Join (x # y # ys) sep = x @ sep @ Join (y # ys) sep"

definition Repeat :: "string \<Rightarrow> nat \<Rightarrow> string" where
  "Repeat s count = concat (replicate count s)"

definition lowerASCII :: "char \<Rightarrow> char" where
  "lowerASCII c =
     (case map_of (zip ''ABCDEFGHIJKLMNOPQRSTUVWXYZ'' ''abcdefghijklmnopqrstuvwxyz'') c of
        Some l \<Rightarrow> l
      | None \<Rightarrow> c)"

fun ToLower :: "string \<Rightarrow> string" where
  "ToLower [] = []"
| "ToLower (c # s) =
     (if c = CHR 0xC4 then
        (case s of
           d # r \<Rightarrow> if d = CHR 0xB0 then CHR ''i'' # ToLower r else c # ToLower s
         | [] \<Rightarrow> [c])
      else if c = CHR 0xE2 then
        (case s of
           d # e # r \<Rightarrow>
             if d = CHR 0x84 \<and> e = CHR 0xAA then CHR ''k'' # ToLower r else c # ToLower s
         | _ \<Rightarrow> c # ToLower s)
      else lowerASCII c # ToLower s)"

fun fmt_d :: "nat \<Rightarrow> string" where
  "fmt_d n = (if n < 10 then [''0123456789'' ! n] else fmt_d (n div 10) @ [''0123456789'' ! (n mod 10)])"

declare fmt_d.simps [simp del]

definition fmt_03d :: "nat \<Rightarrow> string" where
  "fmt_03d n = replicate (3 - length (fmt_d n)) (CHR ''0'') @ fmt_d n"


section \<open>The document model\<close>

record Link =
  Url :: string

record WeightedFontFamily =
  FontFamily :: string

record TextStyle =
  Bold :: bool
  Italic :: bool
  Strikethrough :: bool
  WeightedFontFamily :: "WeightedFontFamily option"
  Link :: "Link option"

record TextRun =
  Content :: string
  TextStyle :: "TextStyle option"

record InlineObjectElement =
  InlineObjectId :: string

record ParagraphElement =
  TextRun :: "TextRun option"
  InlineObjectElement :: "InlineObjectElement option"
  HorizontalRule :: "unit option"

record ParagraphStyle =
  NamedStyleType :: string

record Bullet =
  NestingLevel :: int
  ListId :: string

record Paragraph =
  ParagraphStyle :: "ParagraphStyle option"
  Bullet :: "Bullet option"
  Elements :: "ParagraphElement list"

datatype StructuralElement =
  MkStructuralElement
    (Paragraph: "Paragraph option")
    (Table: "Table option")
    (SectionBreak: "unit option")
    (TableOfContents: "unit option")
and Table = MkTable (TableRows: "TableRow list")
and TableRow = MkTableRow (TableCells: "TableCell list")
and TableCell = MkTableCell (Content_cell: "StructuralElement list")

record NestingLevel =
  GlyphType :: string

record ListProperties =
  NestingLevels :: "NestingLevel list"

record List_docs =
  ListProperties :: "ListProperties option"

record ImageProperties =
  ContentUri :: string

record EmbeddedObject =
  ImageProperties :: "ImageProperties option"
  Title :: string
  Description :: string

record InlineObjectProperties =
  EmbeddedObject :: "EmbeddedObject option"

record InlineObject =
  InlineObjectProperties :: "InlineObjectProperties option"

record Body =
  Content_body :: "StructuralElement list"

record DocumentTab =
  Body :: "Body option"
  Lists :: "(string \<rightharpoonup> List_docs) option"
  InlineObjects :: "(string \<rightharpoonup> InlineObject) option"

record TabProperties =
  Title_tab :: string

datatype Tab =
  MkTab
    (TabProperties: "TabProperties option")
    (ChildTabs: "Tab list")
    (DocumentTab: "DocumentTab option")

section \<open>The converter (converter.go)\<close>

record ImageRef =
  ObjectID :: string
  ContentURI :: string
  Filename :: string

record ConvertResult =
  Markdown :: string
  Images :: "ImageRef list"

record listTracker =
  listID :: string
  nestingLevel :: int
  itemCounts :: "(int \<rightharpoonup> nat) option"

record converter =
  tab :: Tab
  tabIndex :: nat
  buf :: string
  images :: "ImageRef list"
  imageCount :: nat
  listState :: listTracker

datatype error = Panic

definition zeroTracker :: listTracker where
  "zeroTracker = \<lparr>listID = [], nestingLevel = 0, itemCounts = None\<rparr>"

definition writeHeading :: "converter \<Rightarrow> string \<Rightarrow> nat \<Rightarrow> converter" where
  "writeHeading c text level =
     c\<lparr>buf := buf c @ Repeat ''#'' level @ '' '' @ TrimSpace text @ ''\<newline>\<newline>''\<rparr>"

definition headingLevelFromStyle :: "string \<Rightarrow> nat" where
  "headingLevelFromStyle style =
     (if style = ''HEADING_1'' then 1
      else if style = ''HEADING_2'' then 2
      else if style = ''HEADING_3'' then 3
      else if style = ''HEADING_4'' then 4
      else if style = ''HEADING_5'' then 5
      else if style = ''HEADING_6'' then 6
      else if style = ''TITLE'' then 1
      else if style = ''SUBTITLE'' then 2
      else 0)"

definition isOrderedGlyph :: "string \<Rightarrow> bool" where
  "isOrderedGlyph glyphType =
     (glyphType \<in> set [''DECIMAL'', ''ALPHA'', ''UPPER_ALPHA'', ''ROMAN'', ''UPPER_ROMAN'',
        ''ZERO_DECIMAL''])"

definition monospaceFamilies :: "string list" where
  "monospaceFamilies =
     [''courier new'', ''consolas'', ''roboto mono'', ''source code pro'',
      ''fira code'', ''jetbrains mono'', ''ubuntu mono'', ''ibm plex mono'',
      ''dejavu sans mono'', ''menlo'', ''monaco'', ''andale mono'']"

definition isMonospace :: "TextStyle \<Rightarrow> bool" where
  "isMonospace style =
     (case WeightedFontFamily style of
        None \<Rightarrow> False
      | Some wff \<Rightarrow>
          (let family = ToLower (FontFamily wff) in
           if family \<in> set monospaceFamilies then True
           else Contains family ''mono'' \<or> Contains family ''courier''))"

definition guessImageExtension :: "string \<Rightarrow> string" where
  "guessImageExtension uri =
     (let lower = ToLower uri in
      if Contains lower ''.png'' then ''.png''
      else if Contains lower ''.gif'' then ''.gif''
      else if Contains lower ''.svg'' then ''.svg''
      else if Contains lower ''.webp'' then ''.webp''
      else ''.jpg'')"

definition renderTextRun :: "TextRun \<Rightarrow> string" where
  "renderTextRun tr =
     (let text = Content tr in
      if text = ''\<newline>'' then text
      else
        case TextStyle tr of
          None \<Rightarrow> text
        | Some style \<Rightarrow>
            if isMonospace style \<and> TrimSpace text \<noteq> [] then ''`'' @ TrimSpace text @ ''`''
            else
              let trailingNewline = HasSuffix text ''\<newline>'';
                  text = TrimRight text ''\<newline>''
              in
                if text = [] then (if trailingNewline then ''\<newline>'' else [])
                else
                  let text =
                        (if Bold style \<and> Italic style then ''***'' @ text @ ''***''
                         else if Bold style then ''**'' @ text @ ''**''
                         else if Italic style then ''*'' @ text @ ''*''
                         else text);
                      text = (if Strikethrough style then ''~~'' @ text @ ''~~'' else text);
                      text =
                        (case Link style of
                           None \<Rightarrow> text
                         | Some l \<Rightarrow>
                             if Url l \<noteq> [] then ''['' @ text @ '']('' @ Url l @ '')''
                             else text)
                  in if trailingNewline then text @ ''\<newline>'' else text)"

definition imageFilename :: "nat \<Rightarrow> nat \<Rightarrow> string \<Rightarrow> string" where
  "imageFilename ti n ext = ''tab'' @ fmt_d ti @ ''_image_'' @ fmt_03d n @ ext"

definition renderInlineObject :: "converter \<Rightarrow> InlineObjectElement \<Rightarrow> string \<times> converter" where
  "renderInlineObject c elem =
     (case DocumentTab (tab c) of
        None \<Rightarrow> ([], c)
      | Some dt \<Rightarrow>
     (case InlineObjects dt of
        None \<Rightarrow> ([], c)
      | Some objs \<Rightarrow>
     (case objs (InlineObjectId elem) of
        None \<Rightarrow> ([], c)
      | Some obj \<Rightarrow>
     (case InlineObjectProperties obj of
        None \<Rightarrow> ([], c)
      | Some props \<Rightarrow>
     (case EmbeddedObject props of
        None \<Rightarrow> ([], c)
      | Some embedded \<Rightarrow>
     (case ImageProperties embedded of
        None \<Rightarrow> ([], c)
      | Some ip \<Rightarrow>
          if ContentUri ip = [] then ([], c)
          else
            let n = imageCount c + 1;
                ext = guessImageExtension (ContentUri ip);
                fname = imageFilename (tabIndex c) n ext;
                alt = Title embedded;
                alt = (if alt = [] then Description embedded else alt);
                alt = (if alt = [] then fname else alt)
            in (''!['' @ alt @ ''](images/'' @ fname @ '')'',
                c\<lparr>imageCount := n,
                  images := images c @
                    [\<lparr>ObjectID = InlineObjectId elem, ContentURI = ContentUri ip,
                      Filename = fname\<rparr>]\<rparr>)))))))"

definition renderParagraphElement :: "converter \<Rightarrow> ParagraphElement \<Rightarrow> string \<times> converter" where
  "renderParagraphElement c elem =
     (case TextRun elem of
        Some tr \<Rightarrow> (renderTextRun tr, c)
      | None \<Rightarrow>
     (case InlineObjectElement elem of
        Some io \<Rightarrow> renderInlineObject c io
      | None \<Rightarrow>
     (case HorizontalRule elem of
        Some _ \<Rightarrow> (''\<newline>---\<newline>'', c)
      | None \<Rightarrow> ([], c))))"

fun renderParagraphElements :: "converter \<Rightarrow> ParagraphElement list \<Rightarrow> string \<times> converter" where
  "renderParagraphElements c [] = ([], c)"
| "renderParagraphElements c (elem # elems) =
     (let (s, c1) = renderParagraphElement c elem;
          (rest, c2) = renderParagraphElements c1 elems
      in (s @ rest, c2))"

definition listIsOrdered :: "converter \<Rightarrow> string \<Rightarrow> int \<Rightarrow> error + bool" where
  "listIsOrdered c lid lvl =
     (if lid = [] then Inr False
      else
        case DocumentTab (tab c) of
          None \<Rightarrow> Inr False
        | Some dt \<Rightarrow>
       (case Lists dt of
          None \<Rightarrow> Inr False
        | Some lsts \<Rightarrow>
       (case lsts lid of
          None \<Rightarrow> Inr False
        | Some l \<Rightarrow>
       (case ListProperties l of
          None \<Rightarrow> Inr False
        | Some lp \<Rightarrow>
            if lvl < int (length (NestingLevels lp)) then
              (if lvl < 0 then Inl Panic
               else Inr (isOrderedGlyph (GlyphType (NestingLevels lp ! nat lvl))))
            else Inr False))))"

definition handleListItem :: "converter \<Rightarrow> Paragraph \<Rightarrow> nat \<Rightarrow> error + converter" where
  "handleListItem c p headingLevel =
     (case Bullet p of
        None \<Rightarrow> Inl Panic
      | Some bullet \<Rightarrow>
          let lvl = NestingLevel bullet;
              lid = ListId bullet
          in
            case listIsOrdered c lid lvl of
              Inl e \<Rightarrow> Inl e
            | Inr ordered \<Rightarrow>
                let ls = listState c;
                    ls = (if listID ls \<noteq> lid
                          then \<lparr>listID = lid, nestingLevel = 0, itemCounts = Some Map.empty\<rparr>
                          else ls);
                    counts = (case itemCounts ls of None \<Rightarrow> Map.empty | Some m \<Rightarrow> m);
                    counts = (if lvl < nestingLevel ls
                              then (\<lambda>k. if k > lvl then None else counts k)
                              else counts);
                    n = (case counts lvl of None \<Rightarrow> 0 | Some v \<Rightarrow> v) + 1;
                    c = c\<lparr>listState :=
                          \<lparr>listID = listID ls, nestingLevel = lvl,
                            itemCounts = Some (counts(lvl \<mapsto> n))\<rparr>\<rparr>
                in
                  if lvl < 0 then Inl Panic
                  else
                    let indent = Repeat ''  '' (nat lvl);
                        (rendered, c) = renderParagraphElements c (Elements p);
                        text = TrimSpace rendered
                    in
                      if ordered
                      then Inr (c\<lparr>buf := buf c @ indent @ fmt_d n @ ''. '' @ text @ ''\<newline>''\<rparr>)
                      else Inr (c\<lparr>buf := buf c @ indent @ ''- '' @ text @ ''\<newline>''\<rparr>))"

definition convertParagraph :: "converter \<Rightarrow> Paragraph \<Rightarrow> error + converter" where
  "convertParagraph c p =
     (let namedStyle = (case ParagraphStyle p of None \<Rightarrow> [] | Some style \<Rightarrow> NamedStyleType style);
          headingLevel = headingLevelFromStyle namedStyle
      in
        if Bullet p \<noteq> None then handleListItem c p headingLevel
        else
          let c = c\<lparr>listState := zeroTracker\<rparr>;
              (text, c) = renderParagraphElements c (Elements p)
          in
            if TrimSpace text = [] then Inr (c\<lparr>buf := buf c @ ''\<newline>''\<rparr>)
            else if headingLevel > 0 then Inr (writeHeading c text headingLevel)
            else Inr (c\<lparr>buf := buf c @ TrimRight text ''\<newline>'' @ ''\<newline>\<newline>''\<rparr>))"

fun cellParagraphs :: "converter \<Rightarrow> StructuralElement list \<Rightarrow> string \<times> converter" where
  "cellParagraphs c [] = ([], c)"
| "cellParagraphs c (elem # elems) =
     (case Paragraph elem of
        None \<Rightarrow> cellParagraphs c elems
      | Some p \<Rightarrow>
          let (text, c1) = renderParagraphElements c (Elements p);
              (rest, c2) = cellParagraphs c1 elems
          in (TrimSpace text @ rest, c2))"

definition cellText :: "converter \<Rightarrow> TableCell \<Rightarrow> string \<times> converter" where
  "cellText c cell =
     (let (t, c1) = cellParagraphs c (Content_cell cell);
          t = ReplaceAll t ''|'' [CHR 0x5C, CHR ''|''];
          t = ReplaceAll t ''\<newline>'' '' ''
      in (t, c1))"

fun rowCells :: "converter \<Rightarrow> TableCell list \<Rightarrow> string list \<times> converter" where
  "rowCells c [] = ([], c)"
| "rowCells c (cell # cells) =
     (let (t, c1) = cellText c cell;
          (ts, c2) = rowCells c1 cells
      in (t # ts, c2))"

fun tableRows :: "converter \<Rightarrow> TableRow list \<Rightarrow> string list list \<times> converter" where
  "tableRows c [] = ([], c)"
| "tableRows c (row # rows) =
     (let (r, c1) = rowCells c (TableCells row);
          (rs, c2) = tableRows c1 rows
      in (r # rs, c2))"

function padRow :: "nat \<Rightarrow> string list \<Rightarrow> string list" where
  "padRow n row = (if length row < n then padRow n (row @ [[]]) else row)"
  by pat_completeness auto
termination
  by (relation "measure (\<lambda>(n, row). n - length row)") auto

declare padRow.simps [simp del]

definition rowLine :: "string list \<Rightarrow> string" where
  "rowLine row = ''| '' @ Join row '' | '' @ '' |\<newline>''"

fun writeDataRows :: "converter \<Rightarrow> nat \<Rightarrow> string list list \<Rightarrow> converter" where
  "writeDataRows c n [] = c"
| "writeDataRows c n (row # rows) =
     writeDataRows (c\<lparr>buf := buf c @ rowLine (padRow n row)\<rparr>) n rows"

definition convertTable :: "converter \<Rightarrow> Table option \<Rightarrow> converter" where
  "convertTable c table =
     (case table of
        None \<Rightarrow> c
      | Some t \<Rightarrow>
          if length (TableRows t) = 0 then c
          else
            let (rows, c) = tableRows c (TableRows t) in
            case rows of
              [] \<Rightarrow> c
            | header # dataRows \<Rightarrow>
                let c = c\<lparr>buf := buf c @ rowLine header\<rparr>;
                    sep = replicate (length header) ''---'';
                    c = c\<lparr>buf := buf c @ rowLine sep\<rparr>;
                    c = writeDataRows c (length header) dataRows
                in c\<lparr>buf := buf c @ ''\<newline>''\<rparr>)"

definition convertStructuralElement :: "converter \<Rightarrow> StructuralElement \<Rightarrow> error + converter" where
  "convertStructuralElement c elem =
     (case Paragraph elem of
        Some p \<Rightarrow> convertParagraph c p
      | None \<Rightarrow>
     (case Table elem of
        Some t \<Rightarrow> Inr (convertTable c (Some t))
      | None \<Rightarrow>
     (case SectionBreak elem of
        Some _ \<Rightarrow> Inr c
      | None \<Rightarrow>
     (case TableOfContents elem of
        Some _ \<Rightarrow> Inr c
      | None \<Rightarrow> Inr c))))"

fun convertElements :: "converter \<Rightarrow> StructuralElement list \<Rightarrow> error + converter" where
  "convertElements c [] = Inr c"
| "convertElements c (elem # elems) =
     (case convertStructuralElement c elem of
        Inl e \<Rightarrow> Inl e
      | Inr c1 \<Rightarrow> convertElements c1 elems)"

definition convertBody :: "converter \<Rightarrow> Body option \<Rightarrow> error + converter" where
  "convertBody c body =
     (case body of None \<Rightarrow> Inr c | Some b \<Rightarrow> convertElements c (Content_body b))"

definition ConvertTab :: "Tab \<Rightarrow> string \<Rightarrow> nat \<Rightarrow> error + ConvertResult" where
  "ConvertTab t tabTitle ti =
     (let c = \<lparr>tab = t, tabIndex = ti, buf = [], images = [], imageCount = 0,
                listState = zeroTracker\<rparr>;
          c = writeHeading c tabTitle 1
      in
        case (case DocumentTab t of None \<Rightarrow> Inr c | Some dt \<Rightarrow> convertBody c (Body dt)) of
          Inl e \<Rightarrow> Inl e
        | Inr c \<Rightarrow> Inr \<lparr>Markdown = buf c, Images = images c\<rparr>)"

section \<open>The export orchestrator (export.go)\<close>

record tabResult =
  title :: string
  filename :: string
  result :: ConvertResult

record imageDownload =
  ref :: ImageRef
  imagesDir :: "string list"

fun flattenTabs :: "Tab list \<Rightarrow> Tab list" where
  "flattenTabs [] = []"
| "flattenTabs (MkTab props children dt # tabs) =
     MkTab props children dt # flattenTabs children @ flattenTabs tabs"

definition tabTitle :: "Tab \<Rightarrow> string" where
  "tabTitle t =
     (case TabProperties t of
        None \<Rightarrow> ''Untitled''
      | Some props \<Rightarrow> if Title_tab props \<noteq> [] then Title_tab props else ''Untitled'')"

definition replaceByte :: "char \<Rightarrow> string" where
  "replaceByte c =
     (if c \<in> set [CHR ''/'', CHR 0x5C, CHR '':''] then ''-''
      else if c \<in> set [CHR ''*'', CHR ''?'', CHR 0x22, CHR ''<'', CHR ''>'', CHR ''|''] then []
      else [c])"

definition sanitizeFilename :: "string \<Rightarrow> string" where
  "sanitizeFilename name =
     (let name = concat (map replaceByte name);
          name = TrimSpace name
      in if name = [] then ''untitled'' else name)"

fun generateIndexLines :: "tabResult list \<Rightarrow> string" where
  "generateIndexLines [] = []"
| "generateIndexLines (r # rs) =
     ''- ['' @ title r @ '']('' @ filename r @ '')\<newline>'' @ generateIndexLines rs"

definition generateIndex :: "tabResult list \<Rightarrow> string" where
  "generateIndex results =
     ''# Table of Contents\<newline>\<newline>'' @ generateIndexLines results @ ''\<newline>''"

fun convertTabs :: "nat \<Rightarrow> Tab list \<Rightarrow> error + tabResult list" where
  "convertTabs i [] = Inr []"
| "convertTabs i (t # ts) =
     (let ttl = tabTitle t;
          fname = sanitizeFilename ttl @ ''.md''
      in
        case ConvertTab t ttl i of
          Inl e \<Rightarrow> Inl e
        | Inr r \<Rightarrow>
            (case convertTabs (Suc i) ts of
               Inl e \<Rightarrow> Inl e
             | Inr rs \<Rightarrow> Inr (\<lparr>title = ttl, filename = fname, result = r\<rparr> # rs)))"

fun collectImages :: "string list \<Rightarrow> tabResult list \<Rightarrow> imageDownload list" where
  "collectImages dir [] = []"
| "collectImages dir (r # rs) =
     map (\<lambda>img. \<lparr>ref = img, imagesDir = dir\<rparr>) (Images (result r)) @ collectImages dir rs"

datatype export_error =
  ServiceError | FetchError | NoTabsError | DirectoryError | ConversionPanic
  | WriteError "string list"

datatype effect =
  MkdirAll "string list"
  | HttpGet string "string list"
  | WriteFile "string list" string

record world =
  serviceOk :: bool
  fetch :: "Tab list option"
  mkdirOk :: bool
  writeOk :: "string list \<Rightarrow> bool"

fun writeMarkdown :: "world \<Rightarrow> string \<Rightarrow> tabResult list \<Rightarrow> effect list \<times> export_error option" where
  "writeMarkdown w outputDir [] = ([], None)"
| "writeMarkdown w outputDir (r # rs) =
     (let outPath = [outputDir, filename r];
          e = WriteFile outPath (Markdown (result r))
      in
        if \<not> writeOk w outPath then ([e], Some (WriteError outPath))
        else
          let (es, err) = writeMarkdown w outputDir rs
          in (e # es, err))"

definition ExportDoc :: "world \<Rightarrow> string \<Rightarrow> effect list \<times> export_error option" where
  "ExportDoc w outputDir =
     (if \<not> serviceOk w then ([], Some ServiceError)
      else
        case fetch w of
          None \<Rightarrow> ([], Some FetchError)
        | Some docTabs \<Rightarrow>
            let tabs = flattenTabs docTabs in
            if length tabs = 0 then ([], Some NoTabsError)
            else
              let dir = [outputDir, ''images''];
                  e1 = [MkdirAll dir]
              in
                if \<not> mkdirOk w then (e1, Some DirectoryError)
                else
                  case convertTabs 0 tabs of
                    Inl e \<Rightarrow> (e1, Some ConversionPanic)
                  | Inr results \<Rightarrow>
                      let allImages = collectImages dir results;
                          e2 = map (\<lambda>d. HttpGet (ContentURI (ref d))
                                     (imagesDir d @ [Filename (ref d)])) allImages;
                          (e3, err) = writeMarkdown w outputDir results
                      in
                        case err of
                          Some x \<Rightarrow> (e1 @ e2 @ e3, Some x)
                        | None \<Rightarrow>
                            let indexPath = [outputDir, ''tabs.md''];
                                e4 = [WriteFile indexPath (generateIndex results)]
                            in
                              if \<not> writeOk w indexPath
                              then (e1 @ e2 @ e3 @ e4, Some (WriteError indexPath))
                              else (e1 @ e2 @ e3 @ e4, None))"

fun preorder :: "Tab \<Rightarrow> Tab list" where
  "preorder (MkTab props children dt) =
     MkTab props children dt # concat (map preorder children)"

section \<open>The style composition as the specification words it\<close>

definition spec_emphasis :: "TextStyle \<Rightarrow> string \<Rightarrow> string" where
  "spec_emphasis st t =
     (if Bold st \<and> Italic st then ''***'' @ t @ ''***''
      else if Bold st then ''**'' @ t @ ''**''
      else if Italic st then ''*'' @ t @ ''*''
      else t)"

definition spec_strikethrough :: "TextStyle \<Rightarrow> string \<Rightarrow> string" where
  "spec_strikethrough st t = (if Strikethrough st then ''~~'' @ t @ ''~~'' else t)"

definition spec_hyperlink :: "TextStyle \<Rightarrow> string \<Rightarrow> string" where
  "spec_hyperlink st t =
     (case Link st of
        None \<Rightarrow> t
      | Some l \<Rightarrow> if Url l = [] then t else ''['' @ t @ '']('' @ Url l @ '')'')"

section \<open>The table layout as the specification words it\<close>

definition spec_escapeChar :: "char \<Rightarrow> string" where
  "spec_escapeChar ch =
     (if ch = CHR ''|'' then [CHR 0x5C, CHR ''|'']
      else if ch = CHR 0x0A then '' ''
      else [ch])"

definition spec_padRow :: "nat \<Rightarrow> string list \<Rightarrow> string list" where
  "spec_padRow n row = row @ replicate (n - length row) []"

definition spec_table :: "string list \<Rightarrow> string list list \<Rightarrow> string" where
  "spec_table header dataRows =
     rowLine header @ rowLine (replicate (length header) ''---'') @
     concat (map (\<lambda>row. rowLine (spec_padRow (length header) row)) dataRows) @ ''\<newline>''"

section \<open>What rendering leaves unchanged\<close>

definition sameFrame :: "converter \<Rightarrow> converter \<Rightarrow> bool" where
  "sameFrame c c' \<longleftrightarrow>
     tab c' = tab c \<and> tabIndex c' = tabIndex c \<and> buf c' = buf c \<and>
     listState c' = listState c"

definition trackerCounts :: "listTracker \<Rightarrow> (int \<rightharpoonup> nat)" where
  "trackerCounts ls = (case itemCounts ls of None \<Rightarrow> Map.empty | Some m \<Rightarrow> m)"

definition countAt :: "listTracker \<Rightarrow> int \<Rightarrow> nat" where
  "countAt ls k = (case trackerCounts ls k of None \<Rightarrow> 0 | Some v \<Rightarrow> v)"

section \<open>Resolving references, and well-formed input\<close>

definition spec_resolveImage :: "Tab \<Rightarrow> string \<Rightarrow> EmbeddedObject option" where
  "spec_resolveImage t oid =
     (case DocumentTab t of
        None \<Rightarrow> None
      | Some dt \<Rightarrow>
     (case InlineObjects dt of
        None \<Rightarrow> None
      | Some objs \<Rightarrow>
     (case objs oid of
        None \<Rightarrow> None
      | Some obj \<Rightarrow>
     (case InlineObjectProperties obj of
        None \<Rightarrow> None
      | Some props \<Rightarrow> EmbeddedObject props))))"

definition spec_contentURI :: "EmbeddedObject \<Rightarrow> string" where
  "spec_contentURI embedded =
     (case ImageProperties embedded of None \<Rightarrow> [] | Some ip \<Rightarrow> ContentUri ip)"

definition spec_glyphType :: "Tab \<Rightarrow> string \<Rightarrow> int \<Rightarrow> string option" where
  "spec_glyphType t lid lvl =
     (case DocumentTab t of
        None \<Rightarrow> None
      | Some dt \<Rightarrow>
     (case Lists dt of
        None \<Rightarrow> None
      | Some lsts \<Rightarrow>
     (case lsts lid of
        None \<Rightarrow> None
      | Some l \<Rightarrow>
     (case ListProperties l of
        None \<Rightarrow> None
      | Some lp \<Rightarrow>
          if 0 \<le> lvl \<and> lvl < int (length (NestingLevels lp))
          then Some (GlyphType (NestingLevels lp ! nat lvl))
          else None))))"

definition wellFormedElement :: "StructuralElement \<Rightarrow> bool" where
  "wellFormedElement elem =
     (case Paragraph elem of
        None \<Rightarrow> True
      | Some p \<Rightarrow> (case Bullet p of None \<Rightarrow> True | Some b \<Rightarrow> 0 \<le> NestingLevel b))"

definition wellFormedTab :: "Tab \<Rightarrow> bool" where
  "wellFormedTab t =
     (case DocumentTab t of
        None \<Rightarrow> True
      | Some dt \<Rightarrow>
          (case Body dt of
             None \<Rightarrow> True
           | Some b \<Rightarrow> list_all wellFormedElement (Content_body b)))"

definition headingLevels :: "(string \<times> nat) list" where
  "headingLevels =
     [(''HEADING_1'', 1), (''HEADING_2'', 2), (''HEADING_3'', 3), (''HEADING_4'', 4),
      (''HEADING_5'', 5), (''HEADING_6'', 6), (''TITLE'', 1), (''SUBTITLE'', 2)]"

section \<open>Reading an image file name back\<close>

definition isDigit :: "char \<Rightarrow> bool" where
  "isDigit ch = (ch \<in> set ''0123456789'')"

definition digitVal :: "char \<Rightarrow> nat" where
  "digitVal ch = length (takeWhile (\<lambda>d. d \<noteq> ch) ''0123456789'')"

definition digitsVal :: "string \<Rightarrow> nat" where
  "digitsVal s = foldl (\<lambda>a ch. 10 * a + digitVal ch) 0 s"

definition filenameKey :: "string \<Rightarrow> nat \<times> nat" where
  "filenameKey s =
     (let r = drop 3 s;
          r2 = drop 7 (dropWhile isDigit r)
      in (digitsVal (takeWhile isDigit r), digitsVal (takeWhile isDigit r2)))"

definition namedImages :: "nat \<Rightarrow> ImageRef list \<Rightarrow> bool" where
  "namedImages ti imgs \<longleftrightarrow>
     (\<forall>k < length imgs.
        Filename (imgs ! k) =
          imageFilename ti (Suc k) (guessImageExtension (ContentURI (imgs ! k))))"

definition imagesNamed :: "converter \<Rightarrow> bool" where
  "imagesNamed c \<longleftrightarrow> imageCount c = length (images c) \<and> namedImages (tabIndex c) (images c)"

definition keepsNaming :: "converter \<Rightarrow> converter \<Rightarrow> bool" where
  "keepsNaming c c' \<longleftrightarrow> tabIndex c' = tabIndex c \<and> (imagesNamed c \<longrightarrow> imagesNamed c')"

fun downloadTargets :: "effect list \<Rightarrow> string list list" where
  "downloadTargets [] = []"
| "downloadTargets (HttpGet uri dest # es) = dest # downloadTargets es"
| "downloadTargets (MkdirAll dir # es) = downloadTargets es"
| "downloadTargets (WriteFile dest text # es) = downloadTargets es"

section \<open>Example inputs\<close>

definition plainStyle :: TextStyle where
  "plainStyle =
     \<lparr>Bold = False, Italic = False, Strikethrough = False, WeightedFontFamily = None,
      Link = None\<rparr>"

definition leafTab :: "string \<Rightarrow> Tab" where
  "leafTab s = MkTab (Some \<lparr>Title_tab = s\<rparr>) [] None"

definition emptyTab :: Tab where
  "emptyTab = MkTab None [] None"

definition freshConverter :: "Tab \<Rightarrow> nat \<Rightarrow> converter" where
  "freshConverter t ti =
     \<lparr>tab = t, tabIndex = ti, buf = [], images = [], imageCount = 0, listState = zeroTracker\<rparr>"

definition textElement :: "string \<Rightarrow> ParagraphElement" where
  "textElement s =
     \<lparr>TextRun = Some \<lparr>Content = s, TextStyle = None\<rparr>, InlineObjectElement = None,
      HorizontalRule = None\<rparr>"

definition textCell :: "string \<Rightarrow> TableCell" where
  "textCell s =
     MkTableCell
       [MkStructuralElement
          (Some \<lparr>ParagraphStyle = None, Bullet = None, Elements = [textElement s]\<rparr>)
          None None None]"

definition bulletItem :: "string \<Rightarrow> int \<Rightarrow> string \<Rightarrow> StructuralElement" where
  "bulletItem lid lvl s =
     MkStructuralElement
       (Some \<lparr>ParagraphStyle = None, Bullet = Some \<lparr>NestingLevel = lvl, ListId = lid\<rparr>,
          Elements = [textElement s]\<rparr>)
       None None None"

definition listTab :: "string \<Rightarrow> string list \<Rightarrow> StructuralElement list \<Rightarrow> Tab" where
  "listTab lid glyphs body =
     MkTab None []
       (Some \<lparr>Body = Some \<lparr>Content_body = body\<rparr>,
          Lists = Some [lid \<mapsto>
            \<lparr>ListProperties = Some \<lparr>NestingLevels = map (\<lambda>g. \<lparr>GlyphType = g\<rparr>) glyphs\<rparr>\<rparr>],
          InlineObjects = None\<rparr>)"

definition styledItem :: "string \<Rightarrow> Bullet option \<Rightarrow> string \<Rightarrow> Paragraph" where
  "styledItem style bullet s =
     \<lparr>ParagraphStyle = Some \<lparr>NamedStyleType = style\<rparr>, Bullet = bullet,
      Elements = [textElement s]\<rparr>"

definition bodyTab :: "StructuralElement list \<Rightarrow> Tab" where
  "bodyTab body =
     MkTab None []
       (Some \<lparr>Body = Some \<lparr>Content_body = body\<rparr>, Lists = None, InlineObjects = None\<rparr>)"

definition imageElement :: "string \<Rightarrow> ParagraphElement" where
  "imageElement oid =
     \<lparr>TextRun = None, InlineObjectElement = Some \<lparr>InlineObjectId = oid\<rparr>,
      HorizontalRule = None\<rparr>"

definition imageObject :: "string \<Rightarrow> InlineObject" where
  "imageObject uri =
     \<lparr>InlineObjectProperties = Some
        \<lparr>EmbeddedObject = Some
           \<lparr>ImageProperties = Some \<lparr>ContentUri = uri\<rparr>, Title = [], Description = []\<rparr>\<rparr>\<rparr>"

definition imageTab :: "(string \<rightharpoonup> InlineObject) \<Rightarrow> string list \<Rightarrow> Tab" where
  "imageTab objs oids =
     MkTab None []
       (Some \<lparr>Body = Some \<lparr>Content_body =
                 [MkStructuralElement
                    (Some \<lparr>ParagraphStyle = None, Bullet = None,
                       Elements = map imageElement oids\<rparr>)
                    None None None]\<rparr>,
          Lists = None, InlineObjects = Some objs\<rparr>)"

definition brokenTab :: Tab where
  "brokenTab =
     MkTab None []
       (Some \<lparr>Body = Some \<lparr>Content_body =
                 [MkStructuralElement
                    (Some \<lparr>ParagraphStyle = None, Bullet = None,
                       Elements = [textElement ''x'', imageElement ''missing'',
                         imageElement ''nouri'']\<rparr>)
                    None None None,
                  bulletItem ''L'' 0 ''a'']\<rparr>,
          Lists = None, InlineObjects = Some [''nouri'' \<mapsto> imageObject []]\<rparr>)"

definition pictureTab :: Tab where
  "pictureTab =
     imageTab [''a'' \<mapsto> imageObject ''https://h/a.PNG'', ''b'' \<mapsto> imageObject ''https://h/b'']
       [''a'', ''b'']"


section \<open>Tab flattening\<close>

lemma flattenTabs_append: "flattenTabs (xs @ ys) = flattenTabs xs @ flattenTabs ys"
  by (induction xs rule: flattenTabs.induct) auto

lemma flattenTabs_Cons: "flattenTabs (t # ts) = t # flattenTabs (ChildTabs t) @ flattenTabs ts"
  by (cases t) simp

lemma flattenTabs_concat: "flattenTabs ts = concat (map preorder ts)"
  by (induction ts rule: flattenTabs.induct) auto

text \<open>
  Claim C8. \<^const>\<open>flattenTabs\<close> is the pre-order depth-first traversal of the tab forest:
  the flattening of a forest is the concatenation of the pre-order listings of its trees,
  the listing of a tree is the tab followed by the flattening of its children, and wherever
  a tab stands among its siblings, its children's flattening comes right after it and
  before the flattening of the later siblings. The empty forest flattens to the empty
  sequence, and \<^const>\<open>ExportDoc\<close> then stops with the no-tabs error having issued no
  operation at all.
\<close>

theorem flattenTabs_preorder:
  "flattenTabs ts = concat (map preorder ts) \<and>
   preorder t = t # flattenTabs (ChildTabs t) \<and>
   flattenTabs (before @ t # after) =
     flattenTabs before @ t # flattenTabs (ChildTabs t) @ flattenTabs after \<and>
   flattenTabs [] = [] \<and>
   (serviceOk w \<and> fetch w = Some [] \<longrightarrow> ExportDoc w outputDir = ([], Some NoTabsError))"
proof -
  have "preorder t = t # flattenTabs (ChildTabs t)"
    by (cases t) (simp add: flattenTabs_concat)
  moreover have "flattenTabs (before @ t # after) =
      flattenTabs before @ t # flattenTabs (ChildTabs t) @ flattenTabs after"
    by (simp add: flattenTabs_append flattenTabs_Cons)
  moreover have "serviceOk w \<and> fetch w = Some [] \<longrightarrow>
      ExportDoc w outputDir = ([], Some NoTabsError)"
    by (simp add: ExportDoc_def)
  ultimately show ?thesis
    by (simp add: flattenTabs_concat)
qed

theorem flattenTabs_preorder_witness:
  "flattenTabs [MkTab None [leafTab ''a'', MkTab None [leafTab ''b''] None] None, leafTab ''c''] =
     [MkTab None [leafTab ''a'', MkTab None [leafTab ''b''] None] None, leafTab ''a'',
      MkTab None [leafTab ''b''] None, leafTab ''b'', leafTab ''c''] \<and>
   serviceOk \<lparr>serviceOk = True, fetch = Some [], mkdirOk = True, writeOk = (\<lambda>p. True)\<rparr> \<and>
   ExportDoc \<lparr>serviceOk = True, fetch = Some [], mkdirOk = True, writeOk = (\<lambda>p. True)\<rparr> ''out'' =
     ([], Some NoTabsError)"
  using flattenTabs_preorder
    [of "[MkTab None [leafTab ''a'', MkTab None [leafTab ''b''] None] None, leafTab ''c'']"
      "leafTab ''c''" "[]" "[]"
      "\<lparr>serviceOk = True, fetch = Some [], mkdirOk = True, writeOk = (\<lambda>p. True)\<rparr>" "''out''"]
  by (simp add: leafTab_def)

section \<open>Text runs\<close>

lemma TrimSpace_Nil: "TrimSpace [] = []"
  by (simp add: TrimSpace_def)

lemma trimLeading_newlines: "set s \<subseteq> {CHR 0x0A} \<Longrightarrow> trimLeading spaceEncodings s = []"
  by (induction s) (simp_all add: spaceWidth_def spaceEncodings_def asciiSpace_def)

lemma TrimRight_Nil_iff: "TrimRight s cutset = [] \<longleftrightarrow> set s \<subseteq> set cutset"
  by (auto simp: TrimRight_def dropWhile_eq_Nil_conv)

lemma TrimSpace_newlines: "TrimRight s ''\<newline>'' = [] \<Longrightarrow> TrimSpace s = []"
  by (simp add: TrimRight_Nil_iff TrimSpace_def trimLeading_newlines)

lemma TrimSpace_newline: "TrimSpace ''\<newline>'' = []"
  by (simp add: TrimSpace_newlines TrimRight_def)

lemma TrimRight_newline: "TrimRight ''\<newline>'' ''\<newline>'' = []"
  by (simp add: TrimRight_def)

lemma HasSuffix_snoc: "HasSuffix (s @ [x]) [y] \<longleftrightarrow> x = y"
  by (simp add: HasSuffix_def)

lemma renderTextRun_mono:
  assumes "TextStyle tr = Some st" and "isMonospace st" and "TrimSpace (Content tr) \<noteq> []"
  shows "renderTextRun tr = ''`'' @ TrimSpace (Content tr) @ ''`''"
proof -
  have "Content tr \<noteq> ''\<newline>''"
    using assms(3) TrimSpace_newline by auto
  then show ?thesis
    using assms by (simp add: renderTextRun_def)
qed

lemma renderTextRun_styled:
  assumes "TextStyle tr = Some st"
    and "\<not> (isMonospace st \<and> TrimSpace (Content tr) \<noteq> [])"
    and "TrimRight (Content tr) ''\<newline>'' \<noteq> []"
  shows "renderTextRun tr =
     spec_hyperlink st
       (spec_strikethrough st (spec_emphasis st (TrimRight (Content tr) ''\<newline>'')))
     @ (if HasSuffix (Content tr) ''\<newline>'' then ''\<newline>'' else [])"
proof -
  have "Content tr \<noteq> ''\<newline>''"
    using assms(3) TrimRight_newline by auto
  then show ?thesis
    using assms
    by (auto simp: renderTextRun_def Let_def spec_hyperlink_def spec_strikethrough_def
        spec_emphasis_def split: option.splits)
qed

text \<open>
  Claim C4. A text run whose font family, lower-cased, is one of the known monospace
  families or contains \<open>mono\<close> or \<open>courier\<close>, and whose content is not empty after
  trimming, renders as exactly its trimmed content between backticks; whatever the bold,
  italic, strikethrough and link fields of its style are set to, the output is the same,
  so none of their markers is applied.
\<close>

theorem monospace_run_is_inline_code:
  assumes "TextStyle tr = Some st"
    and "WeightedFontFamily st = Some wff"
    and "ToLower (FontFamily wff) \<in> set monospaceFamilies
         \<or> Contains (ToLower (FontFamily wff)) ''mono''
         \<or> Contains (ToLower (FontFamily wff)) ''courier''"
    and "TrimSpace (Content tr) \<noteq> []"
  shows "renderTextRun tr = ''`'' @ TrimSpace (Content tr) @ ''`'' \<and>
    (\<forall>b i s l.
       renderTextRun
         (tr\<lparr>TextStyle := Some (st\<lparr>Bold := b, Italic := i, Strikethrough := s, Link := l\<rparr>)\<rparr>)
       = ''`'' @ TrimSpace (Content tr) @ ''`'')"
proof -
  have mono: "isMonospace (st\<lparr>Bold := b, Italic := i, Strikethrough := s, Link := l\<rparr>)" for b i s l
    using assms(2,3) by (auto simp: isMonospace_def Let_def)
  have "isMonospace st"
    using assms(2,3) by (auto simp: isMonospace_def Let_def)
  with assms(1) have "renderTextRun tr = ''`'' @ TrimSpace (Content tr) @ ''`''"
    using assms(4) by (rule renderTextRun_mono)
  moreover have "renderTextRun
      (tr\<lparr>TextStyle := Some (st\<lparr>Bold := b, Italic := i, Strikethrough := s, Link := l\<rparr>)\<rparr>)
      = ''`'' @ TrimSpace (Content tr) @ ''`''" for b i s l
    using renderTextRun_mono
      [of "tr\<lparr>TextStyle := Some (st\<lparr>Bold := b, Italic := i, Strikethrough := s, Link := l\<rparr>)\<rparr>"
        "st\<lparr>Bold := b, Italic := i, Strikethrough := s, Link := l\<rparr>"]
      mono assms(4)
    by simp
  ultimately show ?thesis by blast
qed

theorem monospace_run_is_inline_code_witness:
  "ToLower ''Consolas'' \<in> set monospaceFamilies \<and>
   TrimSpace ''x'' \<noteq> [] \<and>
   renderTextRun
     \<lparr>Content = ''x'',
      TextStyle = Some (plainStyle\<lparr>Bold := True,
        WeightedFontFamily := Some \<lparr>FontFamily = ''Consolas''\<rparr>\<rparr>)\<rparr> = ''`x`''"
  using monospace_run_is_inline_code
    [of "\<lparr>Content = ''x'',
          TextStyle = Some (plainStyle\<lparr>Bold := True,
            WeightedFontFamily := Some \<lparr>FontFamily = ''Consolas''\<rparr>\<rparr>)\<rparr>"
      "plainStyle\<lparr>Bold := True, WeightedFontFamily := Some \<lparr>FontFamily = ''Consolas''\<rparr>\<rparr>"
      "\<lparr>FontFamily = ''Consolas''\<rparr>"]
  by (simp add: plainStyle_def monospaceFamilies_def lowerASCII_def TrimSpace_def
      spaceWidth_def spaceEncodings_def asciiSpace_def)

text \<open>
  Claim C5. For a styled run that does not take the monospace path and whose content is
  not empty once its trailing newlines are detached, the output is the detached content
  wrapped first in the bold/italic marker (\<open>***\<close>, \<open>**\<close> or \<open>*\<close>), then in \<open>~~\<close> when
  strikethrough is set, then in a link when the style has a non-empty URL, with one
  newline appended last when the content ended in a newline. The run with bold,
  strikethrough, link \<open>https://x\<close> and content \<open>hi\<close> is the witness below.
\<close>

theorem style_markers_compose_in_order:
  assumes "TextStyle tr = Some st"
    and "\<not> (isMonospace st \<and> TrimSpace (Content tr) \<noteq> [])"
    and "TrimRight (Content tr) ''\<newline>'' \<noteq> []"
  shows "renderTextRun tr =
     spec_hyperlink st
       (spec_strikethrough st (spec_emphasis st (TrimRight (Content tr) ''\<newline>'')))
     @ (if HasSuffix (Content tr) ''\<newline>'' then ''\<newline>'' else [])"
  using assms by (rule renderTextRun_styled)

theorem style_markers_compose_in_order_witness:
  "TrimRight ''hi'' ''\<newline>'' \<noteq> [] \<and>
   renderTextRun
     \<lparr>Content = ''hi'',
      TextStyle = Some (plainStyle\<lparr>Bold := True, Strikethrough := True,
        Link := Some \<lparr>Url = ''https://x''\<rparr>\<rparr>)\<rparr> = ''[~~**hi**~~](https://x)''"
  using style_markers_compose_in_order
    [of "\<lparr>Content = ''hi'',
          TextStyle = Some (plainStyle\<lparr>Bold := True, Strikethrough := True,
            Link := Some \<lparr>Url = ''https://x''\<rparr>\<rparr>)\<rparr>"
      "plainStyle\<lparr>Bold := True, Strikethrough := True, Link := Some \<lparr>Url = ''https://x''\<rparr>\<rparr>"]
  by (simp add: plainStyle_def isMonospace_def TrimRight_def HasSuffix_def
      spec_hyperlink_def spec_strikethrough_def spec_emphasis_def)

text \<open>
  Claim C9. On the monospace path the output is the trimmed content between backticks and
  never ends in a newline, also when the content did; with the same content and a
  non-monospace style, a content that ends in a newline gives an output that ends in a
  newline.
\<close>

theorem monospace_run_drops_trailing_newline:
  assumes "TextStyle tr = Some st" and "isMonospace st" and "TrimSpace (Content tr) \<noteq> []"
  shows "renderTextRun tr = ''`'' @ TrimSpace (Content tr) @ ''`'' \<and>
    \<not> HasSuffix (renderTextRun tr) ''\<newline>'' \<and>
    (\<forall>st'. \<not> isMonospace st' \<and> HasSuffix (Content tr) ''\<newline>'' \<longrightarrow>
       HasSuffix (renderTextRun (tr\<lparr>TextStyle := Some st'\<rparr>)) ''\<newline>'')"
proof -
  have r: "renderTextRun tr = ''`'' @ TrimSpace (Content tr) @ ''`''"
    using assms by (rule renderTextRun_mono)
  have "renderTextRun tr = (''`'' @ TrimSpace (Content tr)) @ ''`''"
    by (simp add: r)
  then have n: "\<not> HasSuffix (renderTextRun tr) ''\<newline>''"
    by (simp only: HasSuffix_snoc) simp
  have ne: "TrimRight (Content tr) ''\<newline>'' \<noteq> []"
    using assms(3) TrimSpace_newlines by blast
  have "HasSuffix (renderTextRun (tr\<lparr>TextStyle := Some st'\<rparr>)) ''\<newline>''"
    if "\<not> isMonospace st'" and "HasSuffix (Content tr) ''\<newline>''" for st'
  proof -
    have "renderTextRun (tr\<lparr>TextStyle := Some st'\<rparr>) =
        spec_hyperlink st'
          (spec_strikethrough st' (spec_emphasis st' (TrimRight (Content tr) ''\<newline>'')))
        @ ''\<newline>''"
      using renderTextRun_styled [of "tr\<lparr>TextStyle := Some st'\<rparr>" st'] that ne by simp
    then show ?thesis
      by (simp only: HasSuffix_snoc)
  qed
  with r n show ?thesis by blast
qed

theorem monospace_run_drops_trailing_newline_witness:
  "isMonospace (plainStyle\<lparr>WeightedFontFamily := Some \<lparr>FontFamily = ''Courier New''\<rparr>\<rparr>) \<and>
   TrimSpace ''x\<newline>'' \<noteq> [] \<and>
   renderTextRun
     \<lparr>Content = ''x\<newline>'',
      TextStyle = Some (plainStyle\<lparr>WeightedFontFamily := Some \<lparr>FontFamily = ''Courier New''\<rparr>\<rparr>)\<rparr>
     = ''`x`'' \<and>
   \<not> isMonospace (plainStyle\<lparr>Bold := True\<rparr>) \<and>
   renderTextRun \<lparr>Content = ''x\<newline>'', TextStyle = Some (plainStyle\<lparr>Bold := True\<rparr>)\<rparr>
     = ''**x**\<newline>''"
  using monospace_run_drops_trailing_newline
    [of "\<lparr>Content = ''x\<newline>'',
          TextStyle = Some (plainStyle\<lparr>WeightedFontFamily := Some \<lparr>FontFamily = ''Courier New''\<rparr>\<rparr>)\<rparr>"
      "plainStyle\<lparr>WeightedFontFamily := Some \<lparr>FontFamily = ''Courier New''\<rparr>\<rparr>"]
  by (simp add: plainStyle_def isMonospace_def monospaceFamilies_def lowerASCII_def
      TrimSpace_def spaceWidth_def spaceEncodings_def asciiSpace_def renderTextRun_def
      TrimRight_def HasSuffix_def)

section \<open>Rendering leaves the buffer and the list state alone\<close>

lemma sameFrame_refl: "sameFrame c c"
  by (simp add: sameFrame_def)

lemma sameFrame_trans: "sameFrame a b \<Longrightarrow> sameFrame b c \<Longrightarrow> sameFrame a c"
  by (simp add: sameFrame_def)

lemma renderInlineObject_frame: "renderInlineObject c e = (s, c') \<Longrightarrow> sameFrame c c'"
  by (auto simp: renderInlineObject_def sameFrame_def Let_def split: option.splits if_splits)

lemma renderParagraphElement_frame: "renderParagraphElement c e = (s, c') \<Longrightarrow> sameFrame c c'"
  by (auto simp: renderParagraphElement_def sameFrame_refl split: option.splits
      dest: renderInlineObject_frame)

lemma renderParagraphElements_frame: "renderParagraphElements c es = (s, c') \<Longrightarrow> sameFrame c c'"
proof (induction es arbitrary: c s c')
  case Nil
  then show ?case by (simp add: sameFrame_refl)
next
  case (Cons e es)
  then show ?case
    by (auto split: prod.splits dest: renderParagraphElement_frame intro: sameFrame_trans)
qed

lemma cellParagraphs_frame: "cellParagraphs c es = (s, c') \<Longrightarrow> sameFrame c c'"
proof (induction es arbitrary: c s c')
  case Nil
  then show ?case by (simp add: sameFrame_refl)
next
  case (Cons e es)
  then show ?case
    by (auto split: prod.splits option.splits dest: renderParagraphElements_frame
        intro: sameFrame_trans)
qed

lemma cellText_frame: "cellText c cell = (s, c') \<Longrightarrow> sameFrame c c'"
  by (auto simp: cellText_def Let_def split: prod.splits dest: cellParagraphs_frame)

lemma rowCells_frame: "rowCells c cells = (r, c') \<Longrightarrow> sameFrame c c'"
proof (induction cells arbitrary: c r c')
  case Nil
  then show ?case by (simp add: sameFrame_refl)
next
  case (Cons e es)
  then show ?case
    by (auto split: prod.splits dest: cellText_frame intro: sameFrame_trans)
qed

lemma rowCells_length: "rowCells c cells = (r, c') \<Longrightarrow> length r = length cells"
  by (induction cells arbitrary: c r c') (auto split: prod.splits)

lemma tableRows_frame: "tableRows c rows = (rs, c') \<Longrightarrow> sameFrame c c'"
proof (induction rows arbitrary: c rs c')
  case Nil
  then show ?case by (simp add: sameFrame_refl)
next
  case (Cons e es)
  then show ?case
    by (auto split: prod.splits dest: rowCells_frame intro: sameFrame_trans)
qed

lemma tableRows_length: "tableRows c rows = (rs, c') \<Longrightarrow> length rs = length rows"
  by (induction rows arbitrary: c rs c') (auto split: prod.splits)

lemma padRow_eq: "padRow n row = spec_padRow n row"
proof (induction n row rule: padRow.induct)
  case (1 n row)
  show ?case
  proof (cases "length row < n")
    case True
    then have "padRow n row = spec_padRow n (row @ [[]])"
      using 1 by (simp add: padRow.simps [of n row])
    also have "\<dots> = spec_padRow n row"
      using True by (simp add: spec_padRow_def replicate_append_same Suc_diff_Suc flip: replicate_Suc)
    finally show ?thesis .
  next
    case False
    then show ?thesis by (simp add: padRow.simps [of n row] spec_padRow_def)
  qed
qed

lemma writeDataRows_eq:
  "writeDataRows c n rows =
     c\<lparr>buf := buf c @ concat (map (\<lambda>row. rowLine (spec_padRow n row)) rows)\<rparr>"
  by (induction rows arbitrary: c) (simp_all add: padRow_eq)

lemma ReplaceAll_single:
  "ReplaceAll s [x] new = concat (map (\<lambda>c. if c = x then new else [c]) s)"
  by (induction s) simp_all

lemma cellText_escape:
  "fst (cellText c cell) = concat (map spec_escapeChar (fst (cellParagraphs c (Content_cell cell))))"
proof -
  have "ReplaceAll (ReplaceAll t ''|'' [CHR 0x5C, CHR ''|'']) ''\<newline>'' '' '' =
      concat (map spec_escapeChar t)" for t
    by (induction t) (simp_all add: ReplaceAll_single spec_escapeChar_def)
  then show ?thesis
    by (simp add: cellText_def Let_def split: prod.splits)
qed

lemma convertTable_eq:
  assumes "rowCells c (TableCells row) = (header, c1)" and "tableRows c1 rows = (dataRows, c2)"
  shows "convertTable c (Some (MkTable (row # rows))) =
           c2\<lparr>buf := buf c @ spec_table header dataRows\<rparr>"
proof -
  have "buf c2 = buf c"
    using assms rowCells_frame tableRows_frame unfolding sameFrame_def by metis
  then show ?thesis
    using assms by (simp add: convertTable_def writeDataRows_eq spec_table_def)
qed

lemma tableRows_nth_length:
  "tableRows c rows = (rs, c') \<Longrightarrow> i < length rows \<Longrightarrow>
     length (rs ! i) = length (TableCells (rows ! i))"
proof (induction rows arbitrary: c rs c' i)
  case Nil
  then show ?case by simp
next
  case (Cons row rows)
  then show ?case
    by (cases i) (auto split: prod.splits dest: rowCells_length)
qed

lemma spec_padRow_long: "n \<le> length row \<Longrightarrow> spec_padRow n row = row"
  by (simp add: spec_padRow_def)

text \<open>
  Claim C6. A missing table and a table with no rows leave the converter as it is: nothing
  is written. Otherwise the cells of the first row are the header: the buffer grows by the
  header line, a separator line with one \<open>---\<close> cell for each header cell, one line for
  each later row, padded on the right with empty cells up to the header's length, and a
  newline. The header has one cell for each cell of the first row. The text of a cell is
  the text of its paragraphs with every pipe replaced by backslash-pipe and every
  newline by one space.
\<close>

theorem convertTable_pipe_table:
  "convertTable c None = c \<and>
   convertTable c (Some (MkTable [])) = c \<and>
   (rowCells c (TableCells row) = (header, c1) \<and> tableRows c1 rows = (dataRows, c2) \<longrightarrow>
      convertTable c (Some (MkTable (row # rows))) =
        c2\<lparr>buf := buf c @ spec_table header dataRows\<rparr> \<and>
      length header = length (TableCells row) \<and> length dataRows = length rows) \<and>
   fst (cellText c cell) =
     concat (map spec_escapeChar (fst (cellParagraphs c (Content_cell cell))))"
proof -
  have "convertTable c None = c" and "convertTable c (Some (MkTable [])) = c"
    by (simp_all add: convertTable_def)
  moreover have "convertTable c (Some (MkTable (row # rows))) =
        c2\<lparr>buf := buf c @ spec_table header dataRows\<rparr> \<and>
      length header = length (TableCells row) \<and> length dataRows = length rows"
    if "rowCells c (TableCells row) = (header, c1)" and "tableRows c1 rows = (dataRows, c2)"
    using that convertTable_eq rowCells_length tableRows_length by blast
  ultimately show ?thesis
    using cellText_escape by blast
qed

theorem convertTable_pipe_table_witness:
  "rowCells (freshConverter emptyTab 0) (TableCells (MkTableRow [textCell ''A|B'', textCell '' C\<newline>D '']))
     = ([''A'' @ [CHR 0x5C] @ ''|B'', ''C D''], freshConverter emptyTab 0) \<and>
   tableRows (freshConverter emptyTab 0) [MkTableRow [textCell ''e'']]
     = ([[''e'']], freshConverter emptyTab 0) \<and>
   buf (convertTable (freshConverter emptyTab 0)
          (Some (MkTable [MkTableRow [textCell ''A|B'', textCell '' C\<newline>D ''],
                          MkTableRow [textCell ''e'']])))
     = ''| A'' @ [CHR 0x5C] @ ''|B | C D |\<newline>| --- | --- |\<newline>| e |  |\<newline>\<newline>''"
  using convertTable_pipe_table
    [of "freshConverter emptyTab 0" "MkTableRow [textCell ''A|B'', textCell '' C\<newline>D '']"
      "[''A'' @ [CHR 0x5C] @ ''|B'', ''C D'']" "freshConverter emptyTab 0"
      "[MkTableRow [textCell ''e'']]" "[[''e'']]" "freshConverter emptyTab 0"]
  by (simp add: textCell_def textElement_def cellText_def renderParagraphElement_def
      renderTextRun_def TrimSpace_def spaceWidth_def spaceEncodings_def asciiSpace_def
      spec_table_def spec_padRow_def rowLine_def freshConverter_def)

text \<open>
  Claim C10. A data row with more cells than the header is left as it is by the padding
  loop and its line is written with all of its cells, one for each cell of the source
  row; the other data rows are padded as usual.
\<close>

theorem convertTable_keeps_long_rows:
  assumes "rowCells c (TableCells row) = (header, c1)"
    and "tableRows c1 rows = (dataRows, c2)"
    and "i < length dataRows"
    and "length header < length (dataRows ! i)"
  shows "padRow (length header) (dataRows ! i) = dataRows ! i \<and>
    length (dataRows ! i) = length (TableCells (rows ! i)) \<and>
    buf (convertTable c (Some (MkTable (row # rows)))) =
      buf c @ rowLine header @ rowLine (replicate (length header) ''---'') @
      concat (map (\<lambda>r. rowLine (padRow (length header) r)) (take i dataRows)) @
      rowLine (dataRows ! i) @
      concat (map (\<lambda>r. rowLine (padRow (length header) r)) (drop (Suc i) dataRows)) @
      ''\<newline>''"
proof -
  have keep: "padRow (length header) (dataRows ! i) = dataRows ! i"
    using assms(4) by (simp add: padRow_eq spec_padRow_long)
  have len: "length (dataRows ! i) = length (TableCells (rows ! i))"
    using assms(2,3) tableRows_length tableRows_nth_length by metis
  have split: "dataRows = take i dataRows @ dataRows ! i # drop (Suc i) dataRows"
    using assms(3) by (rule id_take_nth_drop)
  have "concat (map (\<lambda>r. rowLine (spec_padRow (length header) r)) dataRows) =
      concat (map (\<lambda>r. rowLine (padRow (length header) r)) (take i dataRows)) @
      rowLine (dataRows ! i) @
      concat (map (\<lambda>r. rowLine (padRow (length header) r)) (drop (Suc i) dataRows))"
    by (subst split) (simp add: keep padRow_eq [symmetric])
  then have "buf (convertTable c (Some (MkTable (row # rows)))) =
      buf c @ rowLine header @ rowLine (replicate (length header) ''---'') @
      concat (map (\<lambda>r. rowLine (padRow (length header) r)) (take i dataRows)) @
      rowLine (dataRows ! i) @
      concat (map (\<lambda>r. rowLine (padRow (length header) r)) (drop (Suc i) dataRows)) @
      ''\<newline>''"
    using convertTable_eq [OF assms(1,2)] by (simp add: spec_table_def)
  with keep len show ?thesis by blast
qed

theorem convertTable_keeps_long_rows_witness:
  "rowCells (freshConverter emptyTab 0) (TableCells (MkTableRow [textCell ''h'']))
     = ([''h''], freshConverter emptyTab 0) \<and>
   tableRows (freshConverter emptyTab 0) [MkTableRow [textCell ''a'', textCell ''b'']]
     = ([[''a'', ''b'']], freshConverter emptyTab 0) \<and>
   length [''h''] < length ([[''a'', ''b'']] ! 0) \<and>
   buf (convertTable (freshConverter emptyTab 0)
          (Some (MkTable [MkTableRow [textCell ''h''],
                          MkTableRow [textCell ''a'', textCell ''b'']])))
     = ''| h |\<newline>| --- |\<newline>| a | b |\<newline>\<newline>''"
  using convertTable_keeps_long_rows
    [of "freshConverter emptyTab 0" "MkTableRow [textCell ''h'']" "[''h'']"
      "freshConverter emptyTab 0" "[MkTableRow [textCell ''a'', textCell ''b'']]"
      "[[''a'', ''b'']]" "freshConverter emptyTab 0" 0]
  by (simp add: textCell_def textElement_def cellText_def renderParagraphElement_def
      renderTextRun_def TrimSpace_def spaceWidth_def spaceEncodings_def asciiSpace_def
      rowLine_def freshConverter_def)

section \<open>List items\<close>

lemma renderInlineObject_listState:
  "renderInlineObject (c\<lparr>listState := x\<rparr>) e =
     (fst (renderInlineObject c e), (snd (renderInlineObject c e))\<lparr>listState := x\<rparr>)"
  by (simp add: renderInlineObject_def Let_def split: option.splits)

lemma renderParagraphElement_listState:
  "renderParagraphElement (c\<lparr>listState := x\<rparr>) e =
     (fst (renderParagraphElement c e), (snd (renderParagraphElement c e))\<lparr>listState := x\<rparr>)"
  by (simp add: renderParagraphElement_def renderInlineObject_listState split: option.splits)

lemma renderParagraphElements_listState:
  "renderParagraphElements (c\<lparr>listState := x\<rparr>) es =
     (fst (renderParagraphElements c es), (snd (renderParagraphElements c es))\<lparr>listState := x\<rparr>)"
  by (induction es arbitrary: c)
    (simp_all add: renderParagraphElement_listState split: prod.splits)

lemma listIsOrdered_listState:
  "listIsOrdered (c\<lparr>listState := x\<rparr>) lid lvl = listIsOrdered c lid lvl"
  by (simp add: listIsOrdered_def)

lemma listIsOrdered_nonneg: "0 \<le> lvl \<Longrightarrow> \<exists>b. listIsOrdered c lid lvl = Inr b"
  by (auto simp: listIsOrdered_def split: option.splits)

lemma handleListItem_eq:
  assumes "Bullet p = Some b" and "0 \<le> NestingLevel b"
    and "listIsOrdered c (ListId b) (NestingLevel b) = Inr ordered"
    and "renderParagraphElements c (Elements p) = (rendered, c1)"
  shows "handleListItem c p h =
    Inr (c1\<lparr>listState :=
             \<lparr>listID = ListId b, nestingLevel = NestingLevel b,
              itemCounts = Some
                ((if listID (listState c) \<noteq> ListId b then Map.empty
                  else if NestingLevel b < nestingLevel (listState c)
                  then (\<lambda>k. if k > NestingLevel b then None else trackerCounts (listState c) k)
                  else trackerCounts (listState c))
                 (NestingLevel b \<mapsto>
                    (if listID (listState c) \<noteq> ListId b then 0
                     else countAt (listState c) (NestingLevel b)) + 1))\<rparr>,
           buf := buf c @ Repeat ''  '' (nat (NestingLevel b)) @
             (if ordered
              then fmt_d ((if listID (listState c) \<noteq> ListId b then 0
                     else countAt (listState c) (NestingLevel b)) + 1) @ ''. ''
              else ''- '') @ TrimSpace rendered @ ''\<newline>''\<rparr>)"
proof -
  have "buf c1 = buf c"
    using assms(4) renderParagraphElements_frame unfolding sameFrame_def by blast
  then show ?thesis
    using assms
    by (auto simp: handleListItem_def Let_def renderParagraphElements_listState
        trackerCounts_def countAt_def split: option.splits cong: if_cong)
qed

lemma list_example:
  assumes "lid \<noteq> []" and "isOrderedGlyph g0" and "isOrderedGlyph g1"
  shows "ConvertTab
     (listTab lid [g0, g1]
        [bulletItem lid 0 ''a'', bulletItem lid 0 ''b'', bulletItem lid 1 ''c'',
         bulletItem lid 1 ''d'', bulletItem lid 0 ''e''])
     ''T'' i =
   Inr \<lparr>Markdown = ''# T\<newline>\<newline>1. a\<newline>2. b\<newline>  1. c\<newline>  2. d\<newline>3. e\<newline>'', Images = []\<rparr>"
  using assms
  by (simp add: ConvertTab_def listTab_def bulletItem_def textElement_def convertBody_def
      convertStructuralElement_def convertParagraph_def handleListItem_def listIsOrdered_def
      writeHeading_def Repeat_def renderParagraphElement_def renderTextRun_def Let_def
      TrimSpace_def spaceWidth_def spaceEncodings_def asciiSpace_def fmt_d.simps zeroTracker_def)

text \<open>
  Claim C2. A list item whose nesting level is not negative is always processed, and the
  tracker afterwards holds the item's list identifier and nesting level. When the list
  identifier differs from the tracked one, the item is processed exactly as from the
  new list's initial state (no counters, level 0), so the only counter afterwards is 1 at
  the item's level. When the identifier is the same and the item is strictly shallower
  than the tracked level, the counters of all deeper levels are gone, those of the
  shallower levels are as before, and the item's level is incremented (1 when it had no
  counter). When the item is at the tracked level or deeper, only its own level's counter
  changes, incremented likewise. For an ordered level the line written is the indent, the
  counter of the item's level, a dot, a space and the trimmed text. Items at levels
  0, 0, 1, 1, 0 in one list, with a non-empty identifier and ordered glyphs at both
  levels, are labelled 1., 2., 1., 2., 3.
\<close>

theorem list_tracker_transitions:
  assumes "Bullet p = Some b" and "0 \<le> NestingLevel b"
  shows "(\<exists>c'. handleListItem c p h = Inr c' \<and>
      listID (listState c') = ListId b \<and>
      nestingLevel (listState c') = NestingLevel b \<and>
      (listID (listState c) \<noteq> ListId b \<longrightarrow>
         handleListItem c p h =
           handleListItem
             (c\<lparr>listState :=
                  \<lparr>listID = ListId b, nestingLevel = 0, itemCounts = Some Map.empty\<rparr>\<rparr>) p h \<and>
         trackerCounts (listState c') = [NestingLevel b \<mapsto> 1]) \<and>
      (listID (listState c) = ListId b \<and> NestingLevel b < nestingLevel (listState c) \<longrightarrow>
         (\<forall>k. trackerCounts (listState c') k =
            (if k = NestingLevel b then Some (countAt (listState c) k + 1)
             else if NestingLevel b < k then None
             else trackerCounts (listState c) k))) \<and>
      (listID (listState c) = ListId b \<and> nestingLevel (listState c) \<le> NestingLevel b \<longrightarrow>
         trackerCounts (listState c') =
           (trackerCounts (listState c))
             (NestingLevel b \<mapsto> countAt (listState c) (NestingLevel b) + 1)) \<and>
      (listIsOrdered c (ListId b) (NestingLevel b) = Inr True \<longrightarrow>
         buf c' = buf c @ Repeat ''  '' (nat (NestingLevel b)) @
           fmt_d (countAt (listState c') (NestingLevel b)) @ ''. '' @
           TrimSpace (fst (renderParagraphElements c (Elements p))) @ ''\<newline>'')) \<and>
    (lid \<noteq> [] \<and> isOrderedGlyph g0 \<and> isOrderedGlyph g1 \<longrightarrow>
       ConvertTab
         (listTab lid [g0, g1]
            [bulletItem lid 0 ''a'', bulletItem lid 0 ''b'', bulletItem lid 1 ''c'',
             bulletItem lid 1 ''d'', bulletItem lid 0 ''e''])
         ''T'' i =
       Inr \<lparr>Markdown = ''# T\<newline>\<newline>1. a\<newline>2. b\<newline>  1. c\<newline>  2. d\<newline>3. e\<newline>'',
            Images = []\<rparr>)"
proof -
  obtain ordered where ord: "listIsOrdered c (ListId b) (NestingLevel b) = Inr ordered"
    using listIsOrdered_nonneg [OF assms(2)] by blast
  obtain rendered c1 where ren: "renderParagraphElements c (Elements p) = (rendered, c1)"
    by (cases "renderParagraphElements c (Elements p)")
  let ?init = "\<lparr>listID = ListId b, nestingLevel = 0, itemCounts = Some Map.empty\<rparr>"
  note eq = handleListItem_eq [OF assms ord ren, of h]
  have reset: "handleListItem c p h = handleListItem (c\<lparr>listState := ?init\<rparr>) p h"
    if "listID (listState c) \<noteq> ListId b"
  proof -
    have ord': "listIsOrdered (c\<lparr>listState := ?init\<rparr>) (ListId b) (NestingLevel b) = Inr ordered"
      using ord by (simp add: listIsOrdered_listState)
    have ren': "renderParagraphElements (c\<lparr>listState := ?init\<rparr>) (Elements p) =
        (rendered, c1\<lparr>listState := ?init\<rparr>)"
      using ren by (simp add: renderParagraphElements_listState)
    show ?thesis
      using that assms(2)
      by (simp add: eq handleListItem_eq [OF assms(1,2) ord' ren', of h]
          trackerCounts_def countAt_def)
  qed
  have "\<exists>c'. handleListItem c p h = Inr c' \<and>
      listID (listState c') = ListId b \<and>
      nestingLevel (listState c') = NestingLevel b \<and>
      (listID (listState c) \<noteq> ListId b \<longrightarrow>
         handleListItem c p h = handleListItem (c\<lparr>listState := ?init\<rparr>) p h \<and>
         trackerCounts (listState c') = [NestingLevel b \<mapsto> 1]) \<and>
      (listID (listState c) = ListId b \<and> NestingLevel b < nestingLevel (listState c) \<longrightarrow>
         (\<forall>k. trackerCounts (listState c') k =
            (if k = NestingLevel b then Some (countAt (listState c) k + 1)
             else if NestingLevel b < k then None
             else trackerCounts (listState c) k))) \<and>
      (listID (listState c) = ListId b \<and> nestingLevel (listState c) \<le> NestingLevel b \<longrightarrow>
         trackerCounts (listState c') =
           (trackerCounts (listState c))
             (NestingLevel b \<mapsto> countAt (listState c) (NestingLevel b) + 1)) \<and>
      (listIsOrdered c (ListId b) (NestingLevel b) = Inr True \<longrightarrow>
         buf c' = buf c @ Repeat ''  '' (nat (NestingLevel b)) @
           fmt_d (countAt (listState c') (NestingLevel b)) @ ''. '' @
           TrimSpace (fst (renderParagraphElements c (Elements p))) @ ''\<newline>'')"
    unfolding eq using reset ord ren
    by (auto simp: trackerCounts_def [of "\<lparr>listID = x, nestingLevel = y, itemCounts = z\<rparr>" for x y z]
        countAt_def [of "\<lparr>listID = x, nestingLevel = y, itemCounts = z\<rparr>" for x y z] eq)
  then show ?thesis
    using list_example by blast
qed

theorem list_tracker_transitions_witness:
  "Bullet \<lparr>ParagraphStyle = None, Bullet = Some \<lparr>NestingLevel = 0, ListId = ''L''\<rparr>,
           Elements = []\<rparr> = Some \<lparr>NestingLevel = 0, ListId = ''L''\<rparr> \<and>
   0 \<le> NestingLevel \<lparr>NestingLevel = 0, ListId = ''L''\<rparr> \<and>
   ''L'' \<noteq> [] \<and> isOrderedGlyph ''DECIMAL'' \<and> isOrderedGlyph ''ALPHA'' \<and>
   ConvertTab
     (listTab ''L'' [''DECIMAL'', ''ALPHA'']
        [bulletItem ''L'' 0 ''a'', bulletItem ''L'' 0 ''b'', bulletItem ''L'' 1 ''c'',
         bulletItem ''L'' 1 ''d'', bulletItem ''L'' 0 ''e''])
     ''T'' 0 =
   Inr \<lparr>Markdown = ''# T\<newline>\<newline>1. a\<newline>2. b\<newline>  1. c\<newline>  2. d\<newline>3. e\<newline>'',
        Images = []\<rparr>"
  using list_tracker_transitions
    [where p = "\<lparr>ParagraphStyle = None, Bullet = Some \<lparr>NestingLevel = 0, ListId = ''L''\<rparr>,
                 Elements = []\<rparr>"
      and b = "\<lparr>NestingLevel = 0, ListId = ''L''\<rparr>"
      and c = "freshConverter emptyTab 0" and h = 0
      and lid = "''L''" and ?g0.0 = "''DECIMAL''" and ?g1.0 = "''ALPHA''" and i = 0]
  by (simp add: isOrderedGlyph_def)

section \<open>Paragraphs\<close>

lemma headingLevelFromStyle_table:
  "(style, n) \<in> set headingLevels \<Longrightarrow> headingLevelFromStyle style = n \<and> 0 < n"
  unfolding headingLevels_def headingLevelFromStyle_def
  by (elim disjE conjE | simp)+

lemma Repeat_single: "Repeat [x] n = replicate n x"
  by (induction n) (simp_all add: Repeat_def)

text \<open>
  Claim C3, as amended. A paragraph with a named heading style (\<open>HEADING_1\<close> to
  \<open>HEADING_6\<close> for levels 1 to 6, \<open>TITLE\<close> for level 1, \<open>SUBTITLE\<close> for level 2) that
  carries no bullet and whose rendered text is not blank after trimming is written as
  that many \<open>#\<close> characters, a space, the trimmed rendered text and two newlines; the
  list state is reset.
\<close>

theorem heading_paragraph_emits_atx_heading:
  assumes "ParagraphStyle p = Some ps"
    and "(NamedStyleType ps, n) \<in> set headingLevels"
    and "Bullet p = None"
    and "TrimSpace (fst (renderParagraphElements c (Elements p))) \<noteq> []"
  shows "convertParagraph c p =
    Inr ((snd (renderParagraphElements c (Elements p)))
          \<lparr>listState := zeroTracker,
           buf := buf c @ replicate n (CHR ''#'') @ '' '' @
             TrimSpace (fst (renderParagraphElements c (Elements p))) @ ''\<newline>\<newline>''\<rparr>)"
proof -
  have lvl: "headingLevelFromStyle (NamedStyleType ps) = n" and pos: "0 < n"
    using headingLevelFromStyle_table [OF assms(2)] by simp_all
  have "buf (snd (renderParagraphElements c (Elements p))) = buf c"
    using renderParagraphElements_frame [of c "Elements p"] unfolding sameFrame_def
    by (metis prod.collapse)
  then show ?thesis
    using assms(1,3,4) lvl pos
    by (simp add: convertParagraph_def Let_def renderParagraphElements_listState
        writeHeading_def Repeat_single)
qed

theorem heading_paragraph_emits_atx_heading_witness:
  "(''HEADING_2'', 2) \<in> set headingLevels \<and>
   TrimSpace (fst (renderParagraphElements (freshConverter emptyTab 0)
      (Elements (styledItem ''HEADING_2'' None ''Intro'')))) \<noteq> [] \<and>
   convertParagraph (freshConverter emptyTab 0) (styledItem ''HEADING_2'' None ''Intro'') =
     Inr ((freshConverter emptyTab 0)\<lparr>buf := ''## Intro\<newline>\<newline>''\<rparr>)"
  using heading_paragraph_emits_atx_heading
    [of "styledItem ''HEADING_2'' None ''Intro''" "\<lparr>NamedStyleType = ''HEADING_2''\<rparr>" 2
      "freshConverter emptyTab 0"]
  by (simp add: styledItem_def textElement_def headingLevels_def renderParagraphElement_def
      renderTextRun_def TrimSpace_def spaceWidth_def spaceEncodings_def asciiSpace_def
      freshConverter_def zeroTracker_def numeral_2_eq_2)

theorem heading_with_bullet_or_blank_text_counterexample:
  "ConvertTab
     (bodyTab [MkStructuralElement
        (Some (styledItem ''HEADING_2'' (Some \<lparr>NestingLevel = 0, ListId = ''L''\<rparr>) ''Intro''))
        None None None]) ''T'' 0 =
     Inr \<lparr>Markdown = ''# T\<newline>\<newline>- Intro\<newline>'', Images = []\<rparr> \<and>
   ConvertTab
     (bodyTab [MkStructuralElement
        (Some (styledItem ''HEADING_2'' (Some \<lparr>NestingLevel = 0, ListId = ''L''\<rparr>) ''Intro''))
        None None None]) ''T'' 0 \<noteq>
     Inr \<lparr>Markdown = ''# T\<newline>\<newline>## Intro\<newline>\<newline>'', Images = []\<rparr> \<and>
   ConvertTab
     (bodyTab [MkStructuralElement (Some (styledItem ''HEADING_2'' None '' '')) None None None])
     ''T'' 0 =
     Inr \<lparr>Markdown = ''# T\<newline>\<newline>\<newline>'', Images = []\<rparr> \<and>
   ConvertTab
     (bodyTab [MkStructuralElement (Some (styledItem ''HEADING_2'' None '' '')) None None None])
     ''T'' 0 \<noteq>
     Inr \<lparr>Markdown = ''# T\<newline>\<newline>## \<newline>\<newline>'', Images = []\<rparr>"
  by (simp add: ConvertTab_def bodyTab_def styledItem_def textElement_def convertBody_def
      convertStructuralElement_def convertParagraph_def handleListItem_def listIsOrdered_def
      writeHeading_def Repeat_def renderParagraphElement_def renderTextRun_def Let_def
      TrimSpace_def spaceWidth_def spaceEncodings_def asciiSpace_def zeroTracker_def
      headingLevelFromStyle_def)

section \<open>Image file names\<close>

lemma digit_cases:
  "d < 10 \<Longrightarrow> d = 0 \<or> d = 1 \<or> d = 2 \<or> d = 3 \<or> d = 4 \<or> d = 5 \<or> d = 6 \<or> d = 7 \<or> d = 8 \<or> d = (9::nat)"
  by arith

lemma digit_nth:
  assumes "d < 10"
  shows "isDigit (''0123456789'' ! d) \<and> digitVal (''0123456789'' ! d) = d"
  using digit_cases [OF assms]
  by (elim disjE) (simp_all add: isDigit_def digitVal_def)

lemma fmt_d_digits: "\<forall>ch \<in> set (fmt_d n). isDigit ch"
proof (induction n rule: fmt_d.induct)
  case (1 n)
  show ?case
  proof (cases "n < 10")
    case True
    then show ?thesis
      by (simp add: fmt_d.simps [of n] digit_nth)
  next
    case False
    then have "isDigit (''0123456789'' ! (n mod 10))"
      using digit_nth [of "n mod 10"] by simp
    with False 1 show ?thesis
      by (simp add: fmt_d.simps [of n])
  qed
qed

lemma digitsVal_snoc: "digitsVal (s @ [ch]) = 10 * digitsVal s + digitVal ch"
  by (simp add: digitsVal_def)

lemma digitsVal_fmt_d: "digitsVal (fmt_d n) = n"
proof (induction n rule: fmt_d.induct)
  case (1 n)
  show ?case
  proof (cases "n < 10")
    case True
    then show ?thesis
      by (simp add: fmt_d.simps [of n] digitsVal_def digit_nth)
  next
    case False
    have "digitVal (''0123456789'' ! (n mod 10)) = n mod 10"
      using digit_nth [of "n mod 10"] by simp
    with False 1 show ?thesis
      by (simp add: fmt_d.simps [of n] digitsVal_snoc)
  qed
qed

lemma digitsVal_zeros: "digitsVal (replicate k (CHR ''0'') @ s) = digitsVal s"
proof (induction k)
  case 0
  then show ?case by simp
next
  case (Suc k)
  have "digitsVal (CHR ''0'' # t) = digitsVal t" for t
    by (simp add: digitsVal_def digitVal_def)
  with Suc show ?case by simp
qed

lemma isDigit_zero: "isDigit (CHR ''0'')"
  by (simp add: isDigit_def)

lemma fmt_03d_digits: "\<forall>ch \<in> set (fmt_03d n). isDigit ch"
  using fmt_d_digits [of n] isDigit_zero by (auto simp: fmt_03d_def)

lemma digitsVal_fmt_03d: "digitsVal (fmt_03d n) = n"
  by (simp add: fmt_03d_def digitsVal_zeros digitsVal_fmt_d)

lemma takeWhile_digits:
  "\<forall>ch \<in> set a. isDigit ch \<Longrightarrow> \<not> isDigit x \<Longrightarrow> takeWhile isDigit (a @ x # r) = a"
  by (simp add: takeWhile_append2)

lemma dropWhile_digits:
  "\<forall>ch \<in> set a. isDigit ch \<Longrightarrow> \<not> isDigit x \<Longrightarrow> dropWhile isDigit (a @ x # r) = x # r"
  by (simp add: dropWhile_append2)

lemma guessImageExtension_dot: "\<exists>r. guessImageExtension u = CHR ''.'' # r"
  by (simp add: guessImageExtension_def Let_def)

lemma filenameKey_imageFilename:
  "filenameKey (imageFilename ti n (guessImageExtension u)) = (ti, n)"
proof -
  obtain r where ext: "guessImageExtension u = CHR ''.'' # r"
    using guessImageExtension_dot by blast
  have nd: "\<not> isDigit (CHR ''_'')" "\<not> isDigit (CHR ''.'')"
    by (simp_all add: isDigit_def)
  have a: "drop 3 (imageFilename ti n (guessImageExtension u)) =
      fmt_d ti @ CHR ''_'' # (''image_'' @ fmt_03d n @ CHR ''.'' # r)"
    by (simp add: imageFilename_def ext)
  have t1: "takeWhile isDigit (fmt_d ti @ CHR ''_'' # (''image_'' @ fmt_03d n @ CHR ''.'' # r))
      = fmt_d ti"
    using fmt_d_digits nd(1) by (rule takeWhile_digits)
  have d1: "dropWhile isDigit (fmt_d ti @ CHR ''_'' # (''image_'' @ fmt_03d n @ CHR ''.'' # r))
      = CHR ''_'' # (''image_'' @ fmt_03d n @ CHR ''.'' # r)"
    using fmt_d_digits nd(1) by (rule dropWhile_digits)
  have t2: "takeWhile isDigit (fmt_03d n @ CHR ''.'' # r) = fmt_03d n"
    using fmt_03d_digits nd(2) by (rule takeWhile_digits)
  show ?thesis
    unfolding filenameKey_def Let_def a t1 d1
    by (simp add: t2 digitsVal_fmt_d digitsVal_fmt_03d)
qed

lemma keepsNaming_refl: "keepsNaming c c"
  by (simp add: keepsNaming_def)

lemma keepsNaming_trans: "keepsNaming a b \<Longrightarrow> keepsNaming b c \<Longrightarrow> keepsNaming a c"
  by (simp add: keepsNaming_def)

lemma keepsNaming_buf: "keepsNaming c c' \<Longrightarrow> keepsNaming c (c'\<lparr>buf := x\<rparr>)"
  by (auto simp: keepsNaming_def imagesNamed_def)

lemma keepsNaming_listState: "keepsNaming c c' \<Longrightarrow> keepsNaming c (c'\<lparr>listState := x\<rparr>)"
  by (auto simp: keepsNaming_def imagesNamed_def)

lemma keepsNaming_listState_left: "keepsNaming c c' \<Longrightarrow> keepsNaming (c\<lparr>listState := x\<rparr>) c'"
  by (auto simp: keepsNaming_def imagesNamed_def)

lemma namedImages_snoc:
  assumes "namedImages ti imgs"
    and "Filename img = imageFilename ti (Suc (length imgs)) (guessImageExtension (ContentURI img))"
  shows "namedImages ti (imgs @ [img])"
  unfolding namedImages_def
proof (intro allI impI)
  fix k
  assume "k < length (imgs @ [img])"
  then consider "k < length imgs" | "k = length imgs"
    by fastforce
  then show "Filename ((imgs @ [img]) ! k) =
      imageFilename ti (Suc k) (guessImageExtension (ContentURI ((imgs @ [img]) ! k)))"
  proof cases
    case 1
    then show ?thesis
      using assms(1) by (simp add: namedImages_def nth_append)
  next
    case 2
    then show ?thesis
      using assms(2) by simp
  qed
qed

lemma renderInlineObject_keeps: "renderInlineObject c e = (s, c') \<Longrightarrow> keepsNaming c c'"
  by (auto simp: renderInlineObject_def keepsNaming_def imagesNamed_def Let_def
      intro!: namedImages_snoc split: option.splits if_splits)

lemma renderParagraphElement_keeps: "renderParagraphElement c e = (s, c') \<Longrightarrow> keepsNaming c c'"
  by (auto simp: renderParagraphElement_def keepsNaming_refl split: option.splits
      dest: renderInlineObject_keeps)

lemma renderParagraphElements_keeps: "renderParagraphElements c es = (s, c') \<Longrightarrow> keepsNaming c c'"
proof (induction es arbitrary: c s c')
  case Nil
  then show ?case by (simp add: keepsNaming_refl)
next
  case (Cons e es)
  then show ?case
    by (auto split: prod.splits dest: renderParagraphElement_keeps intro: keepsNaming_trans)
qed

lemma cellParagraphs_keeps: "cellParagraphs c es = (s, c') \<Longrightarrow> keepsNaming c c'"
proof (induction es arbitrary: c s c')
  case Nil
  then show ?case by (simp add: keepsNaming_refl)
next
  case (Cons e es)
  then show ?case
    by (auto split: prod.splits option.splits dest: renderParagraphElements_keeps
        intro: keepsNaming_trans)
qed

lemma cellText_keeps: "cellText c cell = (s, c') \<Longrightarrow> keepsNaming c c'"
  by (auto simp: cellText_def Let_def split: prod.splits dest: cellParagraphs_keeps)

lemma rowCells_keeps: "rowCells c cells = (r, c') \<Longrightarrow> keepsNaming c c'"
proof (induction cells arbitrary: c r c')
  case Nil
  then show ?case by (simp add: keepsNaming_refl)
next
  case (Cons e es)
  then show ?case
    by (auto split: prod.splits dest: cellText_keeps intro: keepsNaming_trans)
qed

lemma tableRows_keeps: "tableRows c rows = (rs, c') \<Longrightarrow> keepsNaming c c'"
proof (induction rows arbitrary: c rs c')
  case Nil
  then show ?case by (simp add: keepsNaming_refl)
next
  case (Cons e es)
  then show ?case
    by (auto split: prod.splits dest: rowCells_keeps intro: keepsNaming_trans)
qed

lemma convertTable_keeps: "keepsNaming c (convertTable c t)"
proof (cases t)
  case None
  then show ?thesis by (simp add: convertTable_def keepsNaming_refl)
next
  case (Some tb)
  show ?thesis
  proof (cases "TableRows tb")
    case Nil
    then show ?thesis using Some by (simp add: convertTable_def keepsNaming_refl)
  next
    case (Cons row rows)
    obtain header c1 where h: "rowCells c (TableCells row) = (header, c1)"
      by (cases "rowCells c (TableCells row)")
    obtain dataRows c2 where d: "tableRows c1 rows = (dataRows, c2)"
      by (cases "tableRows c1 rows")
    have tb: "tb = MkTable (row # rows)"
      using Cons by (cases tb) simp
    have "keepsNaming c c2"
      using rowCells_keeps [OF h] tableRows_keeps [OF d] by (rule keepsNaming_trans)
    then show ?thesis
      unfolding Some tb convertTable_eq [OF h d] by (rule keepsNaming_buf)
  qed
qed

section \<open>Conversion of a whole tab\<close>

lemma handleListItem_Inr:
  assumes "handleListItem c p h = Inr c'"
  obtains b where "Bullet p = Some b" and "0 \<le> NestingLevel b"
  using assms
  by (auto simp: handleListItem_def Let_def split: option.splits sum.splits if_splits)

lemma error_is_Panic: "(e :: error) = Panic"
  by (cases e) simp

lemma handleListItem_negative:
  "Bullet p = Some b \<Longrightarrow> NestingLevel b < 0 \<Longrightarrow> handleListItem c p h = Inl Panic"
  by (cases "listIsOrdered c (ListId b) (NestingLevel b)")
    (auto simp: handleListItem_def Let_def error_is_Panic)

lemma handleListItem_total:
  assumes "Bullet p = Some b" and "0 \<le> NestingLevel b"
  shows "\<exists>c'. handleListItem c p h = Inr c'"
proof -
  obtain ordered where ord: "listIsOrdered c (ListId b) (NestingLevel b) = Inr ordered"
    using listIsOrdered_nonneg [OF assms(2)] by blast
  obtain rendered c1 where ren: "renderParagraphElements c (Elements p) = (rendered, c1)"
    by (cases "renderParagraphElements c (Elements p)")
  show ?thesis
    using handleListItem_eq [OF assms ord ren, of h] by simp
qed

lemma handleListItem_keeps:
  assumes "handleListItem c p h = Inr c'"
  shows "keepsNaming c c'"
proof -
  obtain b where b: "Bullet p = Some b" "0 \<le> NestingLevel b"
    using assms by (rule handleListItem_Inr)
  obtain ordered where ord: "listIsOrdered c (ListId b) (NestingLevel b) = Inr ordered"
    using listIsOrdered_nonneg [OF b(2)] by blast
  obtain rendered c1 where ren: "renderParagraphElements c (Elements p) = (rendered, c1)"
    by (cases "renderParagraphElements c (Elements p)")
  have "keepsNaming c c1"
    using ren by (rule renderParagraphElements_keeps)
  then show ?thesis
    using assms unfolding handleListItem_eq [OF b ord ren, of h]
    by (auto intro: keepsNaming_buf keepsNaming_listState)
qed

lemma convertParagraph_plain:
  assumes "Bullet p = None"
  shows "\<exists>c'. convertParagraph c p = Inr c' \<and> keepsNaming c c'"
proof -
  obtain rendered c1 where ren: "renderParagraphElements c (Elements p) = (rendered, c1)"
    by (cases "renderParagraphElements c (Elements p)")
  have k: "keepsNaming c (c1\<lparr>listState := zeroTracker\<rparr>)"
    using renderParagraphElements_keeps [OF ren] by (rule keepsNaming_listState)
  show ?thesis
    using assms ren k
    by (auto simp: convertParagraph_def Let_def renderParagraphElements_listState
        writeHeading_def intro: keepsNaming_buf)
qed

lemma convertParagraph_keeps: "convertParagraph c p = Inr c' \<Longrightarrow> keepsNaming c c'"
proof (cases "Bullet p")
  case None
  assume "convertParagraph c p = Inr c'"
  then show ?thesis
    using convertParagraph_plain [OF None, of c] by auto
next
  case (Some b)
  assume "convertParagraph c p = Inr c'"
  then have "handleListItem c p
      (headingLevelFromStyle
        (case ParagraphStyle p of None \<Rightarrow> [] | Some style \<Rightarrow> NamedStyleType style)) = Inr c'"
    using Some by (simp add: convertParagraph_def Let_def)
  then show ?thesis
    by (rule handleListItem_keeps)
qed

lemma convertParagraph_total:
  assumes "case Bullet p of None \<Rightarrow> True | Some b \<Rightarrow> 0 \<le> NestingLevel b"
  shows "\<exists>c'. convertParagraph c p = Inr c'"
proof (cases "Bullet p")
  case None
  then show ?thesis
    using convertParagraph_plain [of p c] by blast
next
  case (Some b)
  then have "0 \<le> NestingLevel b"
    using assms by simp
  with Some show ?thesis
    using handleListItem_total [of p b c] by (simp add: convertParagraph_def Let_def)
qed

lemma convertStructuralElement_keeps:
  "convertStructuralElement c e = Inr c' \<Longrightarrow> keepsNaming c c'"
  by (auto simp: convertStructuralElement_def keepsNaming_refl convertTable_keeps
      split: option.splits dest: convertParagraph_keeps)

lemma convertStructuralElement_total:
  "wellFormedElement e \<Longrightarrow> \<exists>c'. convertStructuralElement c e = Inr c'"
  using convertParagraph_total
  by (auto simp: convertStructuralElement_def wellFormedElement_def split: option.splits)

lemma convertElements_keeps: "convertElements c es = Inr c' \<Longrightarrow> keepsNaming c c'"
proof (induction es arbitrary: c)
  case Nil
  then show ?case by (simp add: keepsNaming_refl)
next
  case (Cons e es)
  then show ?case
    by (auto split: sum.splits dest: convertStructuralElement_keeps intro: keepsNaming_trans)
qed

lemma convertElements_total:
  "list_all wellFormedElement es \<Longrightarrow> \<exists>c'. convertElements c es = Inr c'"
proof (induction es arbitrary: c)
  case Nil
  then show ?case by simp
next
  case (Cons e es)
  then obtain c1 where "convertStructuralElement c e = Inr c1"
    using convertStructuralElement_total [of e c] by auto
  with Cons show ?case by simp
qed

lemma ConvertTab_named:
  assumes "ConvertTab t ttl ti = Inr r"
  shows "namedImages ti (Images r)"
proof -
  let ?c0 = "\<lparr>tab = t, tabIndex = ti, buf = [], images = [], imageCount = 0,
               listState = zeroTracker\<rparr>"
  let ?c = "writeHeading ?c0 ttl 1"
  have start: "imagesNamed ?c" "tabIndex ?c = ti"
    by (simp_all add: writeHeading_def imagesNamed_def namedImages_def)
  from assms obtain c' where
    c': "(case DocumentTab t of None \<Rightarrow> Inr ?c | Some dt \<Rightarrow> convertBody ?c (Body dt)) = Inr c'"
    and r: "r = \<lparr>Markdown = buf c', Images = images c'\<rparr>"
    by (auto simp: ConvertTab_def Let_def simp del: One_nat_def split: sum.splits)
  have "keepsNaming ?c c'"
    using c'
    by (auto simp: convertBody_def keepsNaming_refl split: option.splits
        dest: convertElements_keeps)
  then show ?thesis
    using start r by (auto simp: keepsNaming_def imagesNamed_def)
qed

lemma ConvertTab_total:
  assumes "wellFormedTab t"
  shows "\<exists>r. ConvertTab t ttl ti = Inr r"
proof -
  let ?c = "writeHeading
      \<lparr>tab = t, tabIndex = ti, buf = [], images = [], imageCount = 0,
       listState = zeroTracker\<rparr> ttl 1"
  have "\<exists>c'. (case DocumentTab t of None \<Rightarrow> Inr ?c | Some dt \<Rightarrow> convertBody ?c (Body dt))
      = Inr c'"
    using assms convertElements_total
    by (auto simp: wellFormedTab_def convertBody_def split: option.splits)
  then obtain c' where
    "(case DocumentTab t of None \<Rightarrow> Inr ?c | Some dt \<Rightarrow> convertBody ?c (Body dt)) = Inr c'"
    by blast
  then show ?thesis
    by (simp add: ConvertTab_def Let_def del: One_nat_def)
qed

section \<open>Unresolved references\<close>

lemma renderInlineObject_resolve:
  "renderInlineObject c e =
     (case spec_resolveImage (tab c) (InlineObjectId e) of
        None \<Rightarrow> ([], c)
      | Some embedded \<Rightarrow>
          if spec_contentURI embedded = [] then ([], c)
          else
            (''!['' @
               (if Title embedded \<noteq> [] then Title embedded
                else if Description embedded \<noteq> [] then Description embedded
                else imageFilename (tabIndex c) (imageCount c + 1)
                       (guessImageExtension (spec_contentURI embedded))) @
               ''](images/'' @
               imageFilename (tabIndex c) (imageCount c + 1)
                 (guessImageExtension (spec_contentURI embedded)) @ '')'',
             c\<lparr>imageCount := imageCount c + 1,
               images := images c @
                 [\<lparr>ObjectID = InlineObjectId e, ContentURI = spec_contentURI embedded,
                   Filename = imageFilename (tabIndex c) (imageCount c + 1)
                     (guessImageExtension (spec_contentURI embedded))\<rparr>]\<rparr>))"
  by (simp add: renderInlineObject_def spec_resolveImage_def spec_contentURI_def Let_def
      split: option.split)

lemma renderInlineObject_unresolved:
  assumes "spec_resolveImage (tab c) (InlineObjectId e) = None \<or>
     (\<exists>emb. spec_resolveImage (tab c) (InlineObjectId e) = Some emb \<and> spec_contentURI emb = [])"
  shows "renderInlineObject c e = ([], c)"
  using assms by (auto simp: renderInlineObject_resolve)

lemma listIsOrdered_missing:
  "0 \<le> lvl \<Longrightarrow> spec_glyphType (tab c) lid lvl = None \<Longrightarrow> listIsOrdered c lid lvl = Inr False"
  by (auto simp: listIsOrdered_def spec_glyphType_def split: option.splits if_splits)

text \<open>
  Claim C7. An inline image element whose reference does not resolve to an embedded
  object through the tab's inline-object mapping, or whose embedded object carries no
  content URI, renders as the empty string and leaves the converter as it was: no image
  reference is appended and the image counter is not incremented. The conversion of a
  well-formed tab (no bullet with a negative nesting level) always returns a result. A
  list item whose list has no glyph type for the item's level (no lists, no such list,
  no list properties, or fewer levels) is written as an unordered item.
\<close>

theorem unresolved_references_degrade:
  "(spec_resolveImage (tab c) (InlineObjectId e) = None \<or>
    (\<exists>emb. spec_resolveImage (tab c) (InlineObjectId e) = Some emb \<and> spec_contentURI emb = [])
    \<longrightarrow> renderInlineObject c e = ([], c)) \<and>
   (wellFormedTab t \<longrightarrow> (\<exists>r. ConvertTab t ttl ti = Inr r)) \<and>
   (Bullet p = Some b \<and> 0 \<le> NestingLevel b \<and>
    spec_glyphType (tab c) (ListId b) (NestingLevel b) = None \<longrightarrow>
      (\<exists>c'. handleListItem c p h = Inr c' \<and>
         buf c' = buf c @ Repeat ''  '' (nat (NestingLevel b)) @ ''- '' @
           TrimSpace (fst (renderParagraphElements c (Elements p))) @ ''\<newline>''))"
proof -
  have "\<exists>c'. handleListItem c p h = Inr c' \<and>
         buf c' = buf c @ Repeat ''  '' (nat (NestingLevel b)) @ ''- '' @
           TrimSpace (fst (renderParagraphElements c (Elements p))) @ ''\<newline>''"
    if b: "Bullet p = Some b" and lvl: "0 \<le> NestingLevel b"
      and miss: "spec_glyphType (tab c) (ListId b) (NestingLevel b) = None"
  proof -
    have ord: "listIsOrdered c (ListId b) (NestingLevel b) = Inr False"
      using lvl miss by (rule listIsOrdered_missing)
    obtain rendered c1 where ren: "renderParagraphElements c (Elements p) = (rendered, c1)"
      by (cases "renderParagraphElements c (Elements p)")
    show ?thesis
      using handleListItem_eq [OF b lvl ord ren, of h] ren by simp
  qed
  then show ?thesis
    using renderInlineObject_unresolved ConvertTab_total by blast
qed


theorem unresolved_references_degrade_witness:
  "spec_resolveImage (tab (freshConverter brokenTab 0)) (InlineObjectId \<lparr>InlineObjectId = ''missing''\<rparr>)
     = None \<and>
   renderInlineObject (freshConverter brokenTab 0) \<lparr>InlineObjectId = ''missing''\<rparr> =
     ([], freshConverter brokenTab 0) \<and>
   wellFormedTab brokenTab \<and>
   ConvertTab brokenTab ''T'' 0 =
     Inr \<lparr>Markdown = ''# T\<newline>\<newline>x\<newline>\<newline>- a\<newline>'', Images = []\<rparr>"
  using unresolved_references_degrade
    [where c = "freshConverter brokenTab 0" and e = "\<lparr>InlineObjectId = ''missing''\<rparr>"
      and t = brokenTab and ttl = "''T''" and ti = 0
      and p = "\<lparr>ParagraphStyle = None, Bullet = Some \<lparr>NestingLevel = 0, ListId = ''L''\<rparr>,
                 Elements = [textElement ''a'']\<rparr>"
      and b = "\<lparr>NestingLevel = 0, ListId = ''L''\<rparr>" and h = 0]
  by (simp add: brokenTab_def freshConverter_def spec_resolveImage_def wellFormedTab_def
      wellFormedElement_def bulletItem_def textElement_def imageElement_def imageObject_def
      ConvertTab_def convertBody_def convertStructuralElement_def convertParagraph_def
      handleListItem_def listIsOrdered_def writeHeading_def Repeat_def
      renderParagraphElement_def renderInlineObject_def renderTextRun_def Let_def
      TrimSpace_def TrimRight_def spaceWidth_def spaceEncodings_def asciiSpace_def zeroTracker_def
      headingLevelFromStyle_def)

end
